theory Spec2Isabelle
  imports Complex_Main
begin

section \<open>JavaScript values used by \<open>src/index.js\<close>\<close>

text \<open>
  Strings are lists of \<^typ>\<open>char\<close>, read as the code units U+0000 to U+00FF.
  The three character classes below are the ones the regular expressions of the
  source use: \<open>[a-z]\<close>, \<open>[a-z]\<close> under the \<open>i\<close> flag, \<open>\d\<close> and \<open>\s\<close>.
\<close>

definition isLower :: "char \<Rightarrow> bool" where
  "isLower c = (let n = (of_char c :: nat) in 97 \<le> n \<and> n \<le> 122)"

definition isLetter :: "char \<Rightarrow> bool" where
  "isLetter c = (let n = (of_char c :: nat) in (65 \<le> n \<and> n \<le> 90) \<or> (97 \<le> n \<and> n \<le> 122))"

definition isDigit :: "char \<Rightarrow> bool" where
  "isDigit c = (let n = (of_char c :: nat) in 48 \<le> n \<and> n \<le> 57)"

text \<open>\<open>\s\<close> and \<open>String.prototype.trim\<close>: tab, LF, VT, FF, CR, space and U+00A0.\<close>

definition isSpace :: "char \<Rightarrow> bool" where
  "isSpace c = (let n = (of_char c :: nat) in (9 \<le> n \<and> n \<le> 13) \<or> n = 32 \<or> n = 160)"

text \<open>
  A JavaScript number. Finite values are exact rationals: the rounding of binary64
  arithmetic and the sign of zero are not represented; \<open>NaN\<close> and the two infinities
  are, with the arithmetic IEEE 754 gives them.
\<close>

datatype jsnum = NaN | PInf | NInf | Fin rat

fun jsNeg :: "jsnum \<Rightarrow> jsnum" where
  "jsNeg NaN = NaN"
| "jsNeg PInf = NInf"
| "jsNeg NInf = PInf"
| "jsNeg (Fin a) = Fin (- a)"

fun jsAdd :: "jsnum \<Rightarrow> jsnum \<Rightarrow> jsnum" where
  "jsAdd NaN _ = NaN"
| "jsAdd _ NaN = NaN"
| "jsAdd PInf NInf = NaN"
| "jsAdd NInf PInf = NaN"
| "jsAdd PInf _ = PInf"
| "jsAdd NInf _ = NInf"
| "jsAdd _ PInf = PInf"
| "jsAdd _ NInf = NInf"
| "jsAdd (Fin a) (Fin b) = Fin (a + b)"

definition jsSub :: "jsnum \<Rightarrow> jsnum \<Rightarrow> jsnum" where
  "jsSub a b = jsAdd a (jsNeg b)"

text \<open>The sign of a number that is not \<open>NaN\<close>: \<open>-1\<close>, \<open>0\<close> or \<open>1\<close>.\<close>

fun jsSign :: "jsnum \<Rightarrow> int" where
  "jsSign NaN = 0"
| "jsSign PInf = 1"
| "jsSign NInf = - 1"
| "jsSign (Fin a) = (if a < 0 then - 1 else if a = 0 then 0 else 1)"

fun jsMul :: "jsnum \<Rightarrow> jsnum \<Rightarrow> jsnum" where
  "jsMul NaN _ = NaN"
| "jsMul _ NaN = NaN"
| "jsMul (Fin a) (Fin b) = Fin (a * b)"
| "jsMul a b =
     (let s = jsSign a * jsSign b
      in if s = 0 then NaN else if s < 0 then NInf else PInf)"

text \<open>
  Division; the only divisor in the source is \<open>1 + exportedPaddingFactor * 2\<close>, and a
  zero divisor stands for \<open>+0\<close>.
\<close>

fun jsDiv :: "jsnum \<Rightarrow> jsnum \<Rightarrow> jsnum" where
  "jsDiv NaN _ = NaN"
| "jsDiv _ NaN = NaN"
| "jsDiv (Fin a) (Fin b) =
     (if b = 0 then (if a = 0 then NaN else if a < 0 then NInf else PInf)
      else Fin (a / b))"
| "jsDiv (Fin a) _ = Fin 0"
| "jsDiv a (Fin b) =
     (let s = jsSign a * (if b < 0 then - 1 else 1)
      in if s < 0 then NInf else PInf)"
| "jsDiv _ _ = NaN"

text \<open>The relational operator \<open><\<close>: false as soon as an operand is \<open>NaN\<close>.\<close>

fun jsLess :: "jsnum \<Rightarrow> jsnum \<Rightarrow> bool" where
  "jsLess NaN _ = False"
| "jsLess _ NaN = False"
| "jsLess (Fin a) (Fin b) = (a < b)"
| "jsLess PInf _ = False"
| "jsLess _ NInf = False"
| "jsLess NInf _ = True"
| "jsLess _ PInf = True"

definition isNaN :: "jsnum \<Rightarrow> bool" where
  "isNaN x = (x = NaN)"

subsection \<open>Decimal digits\<close>

text \<open>The character of a digit \<open>d < 10\<close>.\<close>

definition digitChar :: "nat \<Rightarrow> char" where
  "digitChar d = ''0123456789'' ! d"

definition digitVal :: "char \<Rightarrow> nat" where
  "digitVal c = of_char c - 48"

fun natDigits :: "nat \<Rightarrow> string" where
  "natDigits n = (if n < 10 then [digitChar n] else natDigits (n div 10) @ [digitChar (n mod 10)])"

declare natDigits.simps [simp del]

definition digitsVal :: "string \<Rightarrow> nat" where
  "digitsVal ds = foldl (\<lambda>a c. 10 * a + digitVal c) 0 ds"

definition pow10 :: "int \<Rightarrow> rat" where
  "pow10 e = (if 0 \<le> e then 10 ^ nat e else 1 / 10 ^ nat (- e))"

subsection \<open>\<open>parseFloat\<close> and \<open>Number\<close> on strings\<close>

text \<open>
  The prefix of a string that is a \<open>StrDecimalLiteral\<close>, read after the sign: digits,
  an optional point and digits, an optional exponent. The result is the value and
  the text that follows, or \<open>None\<close> when there is no mantissa digit.
\<close>

definition exponentPart :: "string \<Rightarrow> int \<times> string" where
  "exponentPart s =
     (case s of
        [] \<Rightarrow> (0, s)
      | c # r \<Rightarrow>
          if c = CHR ''e'' \<or> c = CHR ''E'' then
            (let (neg, r1) =
                   (case r of
                      [] \<Rightarrow> (False, r)
                    | d # r' \<Rightarrow>
                        if d = CHR ''-'' then (True, r')
                        else if d = CHR ''+'' then (False, r') else (False, r));
                 ds = takeWhile isDigit r1
             in if ds = [] then (0, s)
                else ((if neg then - int (digitsVal ds) else int (digitsVal ds)),
                      dropWhile isDigit r1))
          else (0, s))"

definition unsignedDecimal :: "string \<Rightarrow> (rat \<times> string) option" where
  "unsignedDecimal s =
     (let ip = takeWhile isDigit s;
          r1 = dropWhile isDigit s;
          (fp, r2) =
            (case r1 of
               [] \<Rightarrow> ([], r1)
             | c # r \<Rightarrow>
                 if c = CHR ''.'' then (takeWhile isDigit r, dropWhile isDigit r)
                 else ([], r1))
      in if ip = [] \<and> fp = [] then None
         else (let (e, r3) = exponentPart r2
               in Some ((of_nat (digitsVal ip) + of_nat (digitsVal fp) * pow10 (- int (length fp)))
                          * pow10 e, r3)))"

definition signedLiteral :: "string \<Rightarrow> (jsnum \<times> string) option" where
  "signedLiteral s =
     (let (neg, u) =
            (case s of
               [] \<Rightarrow> (False, s)
             | c # r \<Rightarrow>
                 if c = CHR ''-'' then (True, r)
                 else if c = CHR ''+'' then (False, r) else (False, s))
      in if take 8 u = ''Infinity'' then Some (if neg then NInf else PInf, drop 8 u)
         else (case unsignedDecimal u of
                 None \<Rightarrow> None
               | Some (v, r) \<Rightarrow> Some (Fin (if neg then - v else v), r)))"

text \<open>
  \<open>parseFloat(string)\<close>: leading white space is skipped, the longest numeric prefix
  is read and the rest ignored; no prefix gives \<open>NaN\<close>.
\<close>

definition parseFloat :: "string \<Rightarrow> jsnum" where
  "parseFloat s =
     (case signedLiteral (dropWhile isSpace s) of
        None \<Rightarrow> NaN
      | Some (v, _) \<Rightarrow> v)"

text \<open>
  \<open>parseFloat\<close> of an array element that may be missing: \<open>undefined\<close> is converted to
  the string \<open>"undefined"\<close> first.
\<close>

definition parseFloatU :: "string option \<Rightarrow> jsnum" where
  "parseFloatU x = parseFloat (case x of None \<Rightarrow> ''undefined'' | Some s \<Rightarrow> s)"

definition trim :: "string \<Rightarrow> string" where
  "trim s = rev (dropWhile isSpace (rev (dropWhile isSpace s)))"

text \<open>
  \<open>Number(string)\<close>: the whole trimmed string has to be a literal, and the empty
  string is \<open>0\<close>. The source applies it to matches of \<open>-?\d+\.\d+\<close> and to results of
  \<open>toFixed\<close> only, so the hexadecimal, octal and binary literals are left out.
\<close>

definition stringToNumber :: "string \<Rightarrow> jsnum" where
  "stringToNumber s =
     (let t = trim s
      in if t = [] then Fin 0
         else (case signedLiteral t of
                 None \<Rightarrow> NaN
               | Some (v, r) \<Rightarrow> if r = [] then v else NaN))"

subsection \<open>\<open>Number::toString\<close> and \<open>toFixed\<close>\<close>

text \<open>
  The decimal exponent of a positive value \<open>q\<close>: the \<open>n\<close> with
  \<open>10 ^ (n - 1) \<le> q < 10 ^ n\<close>.
\<close>

definition decExp :: "rat \<Rightarrow> int" where
  "decExp q =
     (if 1 \<le> q then int (length (natDigits (nat \<lfloor>q\<rfloor>)))
      else 1 - int (length (natDigits (nat \<lceil>1 / q\<rceil> - 1))))"

function stripZeros :: "nat \<Rightarrow> int \<Rightarrow> nat \<times> int" where
  "stripZeros s e = (if s \<noteq> 0 \<and> s mod 10 = 0 then stripZeros (s div 10) (e + 1) else (s, e))"
  by pat_completeness auto
termination
  by (relation "measure (\<lambda>(s, e). s)") auto

declare stripZeros.simps [simp del]

text \<open>
  The digits \<open>s\<close> and the exponent \<open>e\<close> with which a positive value is written:
  \<open>s * 10 ^ e\<close> is the value rounded to 17 significant digits (a binary64 value never
  needs more), and \<open>s\<close> does not end in \<open>0\<close>.
\<close>

definition shortest :: "rat \<Rightarrow> nat \<times> int" where
  "shortest q =
     (let n0 = decExp q
      in stripZeros (nat \<lfloor>q * pow10 (17 - n0) + 1 / 2\<rfloor>) (n0 - 17))"

text \<open>
  \<open>Number::toString(x)\<close> in radix 10, for a positive finite \<open>x\<close>, following the cases of
  ECMA-262 with \<open>k\<close> the number of digits and \<open>n\<close> the position of the point.
\<close>

definition positional :: "rat \<Rightarrow> bool" where
  "positional q =
     (let (s, e) = shortest q; n = int (length (natDigits s)) + e
      in - 6 < n \<and> n \<le> 21)"

definition renderPos :: "rat \<Rightarrow> string" where
  "renderPos q =
     (let (s, e) = shortest q;
          ds = natDigits s;
          k = int (length ds);
          n = k + e
      in if k \<le> n \<and> n \<le> 21 then ds @ replicate (nat (n - k)) (CHR ''0'')
         else if 0 < n \<and> n \<le> 21 then take (nat n) ds @ ''.'' @ drop (nat n) ds
         else if - 6 < n \<and> n \<le> 0 then ''0.'' @ replicate (nat (- n)) (CHR ''0'') @ ds
         else (let ex = (if n - 1 < 0 then ''-'' else ''+'') @ natDigits (nat \<bar>n - 1\<bar>)
               in if k = 1 then ds @ ''e'' @ ex
                  else take 1 ds @ ''.'' @ drop 1 ds @ ''e'' @ ex))"

fun toString :: "jsnum \<Rightarrow> string" where
  "toString NaN = ''NaN''"
| "toString PInf = ''Infinity''"
| "toString NInf = ''-Infinity''"
| "toString (Fin q) =
     (if q = 0 then ''0''
      else if q < 0 then ''-'' @ renderPos (- q)
      else renderPos q)"

text \<open>
  \<open>Number.prototype.toFixed(f)\<close> for \<open>0 \<le> f \<le> 100\<close>; the caller checks the range.
  Ties are rounded away from zero.
\<close>

definition toFixedDigits :: "rat \<Rightarrow> nat \<Rightarrow> string" where
  "toFixedDigits x f =
     (let n = nat \<lfloor>x * 10 ^ f + 1 / 2\<rfloor>;
          m = natDigits n
      in if f = 0 then m
         else (let m' = replicate (f + 1 - length m) (CHR ''0'') @ m;
                   k = length m'
               in take (k - f) m' @ ''.'' @ drop (k - f) m'))"

fun toFixed :: "jsnum \<Rightarrow> nat \<Rightarrow> string" where
  "toFixed (Fin x) f =
     (if 10 ^ 21 \<le> \<bar>x\<bar> then toString (Fin x)
      else if x < 0 then ''-'' @ toFixedDigits (- x) f
      else toFixedDigits x f)"
| "toFixed x f = toString x"


section \<open>Strings and arrays\<close>

text \<open>\<open>String.prototype.split(sep)\<close> for a separator of one character.\<close>

fun splitOn :: "char \<Rightarrow> string \<Rightarrow> string list" where
  "splitOn sep [] = [[]]"
| "splitOn sep (c # cs) =
     (if c = sep then [] # splitOn sep cs
      else (case splitOn sep cs of
              [] \<Rightarrow> [[c]]
            | p # ps \<Rightarrow> (c # p) # ps))"

text \<open>\<open>Array.prototype.join(sep)\<close> on strings.\<close>

fun joinWith :: "string \<Rightarrow> string list \<Rightarrow> string" where
  "joinWith sep [] = []"
| "joinWith sep [x] = x"
| "joinWith sep (x # y # ys) = x @ sep @ joinWith sep (y # ys)"

text \<open>\<open>String.prototype.includes\<close>.\<close>

fun includesStr :: "string \<Rightarrow> string \<Rightarrow> bool" where
  "includesStr [] pat = (pat = [])"
| "includesStr (c # cs) pat = (take (length pat) (c # cs) = pat \<or> includesStr cs pat)"

text \<open>
  An element of the array \<open>parts\<close> of \<open>normalizePathData\<close>: a piece of the command
  text, a number written by the rewrite, or a hole left by an assignment past the end.
\<close>

datatype part = PStr string | PNum jsnum | PHole

text \<open>\<open>parts[i]\<close>; \<open>None\<close> is \<open>undefined\<close>.\<close>

definition getAt :: "part list \<Rightarrow> nat \<Rightarrow> part option" where
  "getAt xs i = (if i < length xs then Some (xs ! i) else None)"

text \<open>\<open>parts[i] = v\<close>: an index past the end extends the array.\<close>

definition setAt :: "part list \<Rightarrow> nat \<Rightarrow> part \<Rightarrow> part list" where
  "setAt xs i v =
     (if i < length xs then xs[i := v]
      else xs @ replicate (i - length xs) PHole @ [v])"

text \<open>\<open>Number.parseFloat(parts[i])\<close>.\<close>

definition parseFloatAt :: "part list \<Rightarrow> nat \<Rightarrow> jsnum" where
  "parseFloatAt xs i =
     (case getAt xs i of
        Some (PStr s) \<Rightarrow> parseFloat s
      | Some (PNum n) \<Rightarrow> parseFloat (toString n)
      | _ \<Rightarrow> NaN)"

text \<open>The string an element contributes to \<open>parts.join(" ")\<close>.\<close>

fun partStr :: "part \<Rightarrow> string" where
  "partStr (PStr s) = s"
| "partStr (PNum n) = toString n"
| "partStr PHole = []"

section \<open>The parsed document\<close>

text \<open>
  A node of the tree that \<open>parseFragment\<close> returns: \<open>nodeName\<close>, \<open>attrs\<close> as (name,
  value) pairs and \<open>childNodes\<close>. A node without \<open>attrs\<close> or \<open>childNodes\<close> (a text
  node) has the empty list: the source reads both through \<open>?.\<close> only.
\<close>

datatype node = Node (nodeName: string) (attrs: "(string \<times> string) list") (childNodes: "node list")

datatype error =
    MissingRoot
  | MissingViewBox
  | InvalidViewBox
  | StyleTransform
  | InvalidTransformParameters string
  | UnsupportedTransform string
  | UnsupportedElement string
  | UnsupportedPathCommand string
  | RangeError

record transformContext =
  translate :: "jsnum \<times> jsnum"
  scale :: "jsnum \<times> jsnum"

definition getAttrValue :: "node \<Rightarrow> string \<Rightarrow> string option" where
  "getAttrValue n name = map_of (attrs n) name"

section \<open>\<open>normalizePathData\<close>\<close>

text \<open>
  \<open>.replace(/([^a-z]+)([a-z])/ig, "$1 $2")\<close>: a match is a maximal run of
  non-letters and the letter after it, so every letter that directly follows a
  non-letter gets a space in front of it.
\<close>

fun insertSpaces :: "string \<Rightarrow> string" where
  "insertSpaces (c # d # r) =
     (if \<not> isLetter c \<and> isLetter d then c # CHR '' '' # d # insertSpaces r
      else c # insertSpaces (d # r))"
| "insertSpaces cs = cs"

text \<open>\<open>.replace(/\s\s+/g, " ")\<close>: a run of two or more white-space characters becomes one space.\<close>

function collapseSpaces :: "string \<Rightarrow> string" where
  "collapseSpaces (c # d # r) =
     (if isSpace c \<and> isSpace d then CHR '' '' # collapseSpaces (dropWhile isSpace r)
      else c # collapseSpaces (d # r))"
| "collapseSpaces [c] = [c]"
| "collapseSpaces [] = []"
  by pat_completeness auto
termination
  by (relation "measure length") (auto simp: less_Suc_eq_le intro: le_trans [OF length_dropWhile_le])

text \<open>
  The callback of \<open>.replace(/[a-z][^a-z]+/ig, command => ...)\<close>, on the array
  \<open>parts = command.split(" ")\<close>.
\<close>

definition transformParts :: "transformContext \<Rightarrow> part list \<Rightarrow> error + part list" where
  "transformParts ctx parts =
     (let (tx, ty) = translate ctx;
          (sx, sy) = scale ctx;
          invertArcs = jsLess (jsMul sx sy) (Fin 0)
      in if getAt parts 0 = Some (PStr ''M'') \<or> getAt parts 0 = Some (PStr ''L'') then
           (let p1 = setAt parts 1 (PNum (jsAdd (jsMul (parseFloatAt parts 1) sx) tx));
                p2 = setAt p1 2 (PNum (jsAdd (jsMul (parseFloatAt p1 2) sy) ty))
            in Inr p2)
         else if getAt parts 0 = Some (PStr ''A'') then
           (let p1 = setAt parts 1 (PNum (jsMul (parseFloatAt parts 1) sx));
                p2 = setAt p1 2 (PNum (jsMul (parseFloatAt p1 2) sy));
                p5 = (if invertArcs then
                        (let p3 = setAt p2 3 (PNum (jsMul (parseFloatAt p2 3) (Fin (- 1))))
                         in setAt p3 5 (PStr (if parseFloatAt p3 5 = Fin 1 then ''0'' else ''1'')))
                      else p2);
                p6 = setAt p5 6 (PNum (jsAdd (jsMul (parseFloatAt p5 6) sx) tx));
                p7 = setAt p6 7 (PNum (jsAdd (jsMul (parseFloatAt p6 7) sy) ty))
            in Inr p7)
         else Inl (UnsupportedPathCommand (case getAt parts 0 of Some p \<Rightarrow> partStr p | None \<Rightarrow> [])))"

definition transformCommand :: "transformContext \<Rightarrow> string \<Rightarrow> error + string" where
  "transformCommand ctx command =
     (case transformParts ctx (map PStr (splitOn (CHR '' '') command)) of
        Inl e \<Rightarrow> Inl e
      | Inr parts \<Rightarrow> Inr (joinWith '' '' (map partStr parts)))"

text \<open>
  \<open>.replace(/[a-z][^a-z]+/ig, ...)\<close>: a match is a letter and the maximal, non-empty
  run of non-letters after it; a letter followed by a letter or by the end of the
  string is copied. The first callback that throws ends the replacement.
\<close>

function applyCommands :: "transformContext \<Rightarrow> string \<Rightarrow> error + string" where
  "applyCommands ctx [] = Inr []"
| "applyCommands ctx [c] = Inr [c]"
| "applyCommands ctx (c # d # r) =
     (if isLetter c \<and> \<not> isLetter d then
        (case transformCommand ctx (c # takeWhile (\<lambda>x. \<not> isLetter x) (d # r)) of
           Inl e \<Rightarrow> Inl e
         | Inr out \<Rightarrow>
             (case applyCommands ctx (dropWhile (\<lambda>x. \<not> isLetter x) (d # r)) of
                Inl e \<Rightarrow> Inl e
              | Inr rest \<Rightarrow> Inr (out @ rest)))
      else (case applyCommands ctx (d # r) of
              Inl e \<Rightarrow> Inl e
            | Inr rest \<Rightarrow> Inr (c # rest)))"
  by pat_completeness auto
termination
  by (relation "measure (\<lambda>(ctx, s). length s)")
     (auto simp: less_Suc_eq_le intro: le_trans [OF length_dropWhile_le])

text \<open>
  A match of \<open>/(-?\d+)(\.\d+)/\<close> at the start of a string: the matched text and what
  follows it.
\<close>

definition matchDecimal :: "string \<Rightarrow> (string \<times> string) option" where
  "matchDecimal s =
     (let (sg, u) = (case s of [] \<Rightarrow> ([], s) | c # r \<Rightarrow> if c = CHR ''-'' then (''-'', r) else ([], s));
          ip = takeWhile isDigit u;
          r1 = dropWhile isDigit u
      in if ip = [] then None
         else (case r1 of
                 [] \<Rightarrow> None
               | c # r2 \<Rightarrow>
                   if c = CHR ''.'' \<and> takeWhile isDigit r2 \<noteq> []
                   then Some (sg @ ip @ ''.'' @ takeWhile isDigit r2, dropWhile isDigit r2)
                   else None))"

text \<open>
  The callback \<open>x => Number(Number(x).toFixed(precision))\<close>, with the conversion of its
  result to a string; \<open>toFixed\<close> throws a \<open>RangeError\<close> outside \<open>0..100\<close>.
\<close>

definition limitNumber :: "int \<Rightarrow> string \<Rightarrow> error + string" where
  "limitNumber precision x =
     (if precision < 0 \<or> 100 < precision then Inl RangeError
      else Inr (toString (stringToNumber (toFixed (stringToNumber x) (nat precision)))))"

text \<open>
  \<open>.replace(/(-?\d+)(\.\d+)/g, ...)\<close>: matches are looked for from left to right,
  and a character at which none starts is copied.
\<close>

function limitPrecision :: "int \<Rightarrow> string \<Rightarrow> error + string" where
  "limitPrecision precision [] = Inr []"
| "limitPrecision precision (c # cs) =
     (case matchDecimal (c # cs) of
        None \<Rightarrow>
          (case limitPrecision precision cs of
             Inl e \<Rightarrow> Inl e
           | Inr rest \<Rightarrow> Inr (c # rest))
      | Some (m, after) \<Rightarrow>
          (case limitNumber precision m of
             Inl e \<Rightarrow> Inl e
           | Inr out \<Rightarrow>
               (case limitPrecision precision after of
                  Inl e \<Rightarrow> Inl e
                | Inr rest \<Rightarrow> Inr (out @ rest))))"
  by pat_completeness auto
termination
proof (relation "measure (\<lambda>(p, s). length s)", goal_cases)
  case 1
  show ?case by simp
next
  case (2 precision c cs)
  show ?case by simp
next
  case (3 precision c cs x2 m after out)
  define s where "s = c # cs"
  define u where "u = (if c = CHR ''-'' then cs else s)"
  have u: "length u \<le> length s"
    by (simp add: u_def s_def)
  from 3 have "matchDecimal s = Some (m, after)"
    by (simp add: s_def)
  then obtain d r2 where r: "dropWhile isDigit u = d # r2" "after = dropWhile isDigit r2"
    by (auto simp: matchDecimal_def Let_def u_def s_def split: list.splits if_splits)
  have "length after \<le> length r2"
    using r(2) by (simp add: length_dropWhile_le)
  moreover have "length (d # r2) \<le> length u"
    using length_dropWhile_le [of isDigit u] r(1) by simp
  ultimately show ?case
    using u by (simp add: s_def)
qed

definition normalizePathData :: "string \<Rightarrow> transformContext \<Rightarrow> int \<Rightarrow> error + string" where
  "normalizePathData data ctx precision =
     (case applyCommands ctx (collapseSpaces (insertSpaces data)) of
        Inl e \<Rightarrow> Inl e
      | Inr s \<Rightarrow> limitPrecision precision s)"

section \<open>\<open>sketchToIcon\<close>\<close>

text \<open>
  \<open>findRoot\<close>: the first node named \<open>svg\<close> in document order; \<open>findRootIn\<close> is its
  loop over \<open>childNodes\<close>.
\<close>

fun findRoot :: "node \<Rightarrow> node option"
  and findRootIn :: "node list \<Rightarrow> node option" where
  "findRoot (Node name as cs) = (if name = ''svg'' then Some (Node name as cs) else findRootIn cs)"
| "findRootIn [] = None"
| "findRootIn (c # cs) = (case findRoot c of Some r \<Rightarrow> Some r | None \<Rightarrow> findRootIn cs)"

text \<open>
  Lines 52 to 56: the numbers \<open>(xOffset, yOffset, width, height)\<close> computed from the
  \<open>viewBox\<close> attribute and the padding factor.
\<close>

definition viewBoxNumbers :: "string \<Rightarrow> jsnum \<Rightarrow> jsnum \<times> jsnum \<times> jsnum \<times> jsnum" where
  "viewBoxNumbers viewBoxStr exportedPaddingFactor =
     (let viewBoxParts = map PStr (splitOn (CHR '' '') viewBoxStr);
          width = jsDiv (parseFloatAt viewBoxParts 2) (jsAdd (Fin 1) (jsMul exportedPaddingFactor (Fin 2)));
          height = jsDiv (parseFloatAt viewBoxParts 3) (jsAdd (Fin 1) (jsMul exportedPaddingFactor (Fin 2)));
          xOffset = jsSub (parseFloatAt viewBoxParts 0) (jsMul width exportedPaddingFactor);
          yOffset = jsSub (parseFloatAt viewBoxParts 1) (jsMul height exportedPaddingFactor)
      in (xOffset, yOffset, width, height))"

text \<open>Lines 57 to 59: the four numbers, or the error when one of them is \<open>NaN\<close>.\<close>

definition resolveViewBox :: "string \<Rightarrow> jsnum \<Rightarrow> error + (jsnum \<times> jsnum \<times> jsnum \<times> jsnum)" where
  "resolveViewBox viewBoxStr exportedPaddingFactor =
     (let (xOffset, yOffset, width, height) = viewBoxNumbers viewBoxStr exportedPaddingFactor
      in if isNaN xOffset \<or> isNaN yOffset \<or> isNaN width \<or> isNaN height then Inl InvalidViewBox
         else Inr (xOffset, yOffset, width, height))"

text \<open>
  One result of \<open>tfrx.exec\<close> for \<open>tfrx = /([a-z]+)\(([^\)]*)\)/g\<close>: the first position
  at which a run of lower-case letters, an opening parenthesis and, later, a closing
  one are found. The result is \<open>match[1]\<close>, \<open>match[2]\<close> and the text after the match,
  where the next call of \<open>exec\<close> resumes.
\<close>

fun tfrxExec :: "string \<Rightarrow> (string \<times> string \<times> string) option" where
  "tfrxExec [] = None"
| "tfrxExec (c # cs) =
     (if isLower c then
        (case dropWhile isLower cs of
           [] \<Rightarrow> tfrxExec cs
         | p # r \<Rightarrow>
             if p = CHR ''('' \<and> CHR '')'' \<in> set r
             then Some (c # takeWhile isLower cs,
                        takeWhile (\<lambda>x. x \<noteq> CHR '')'') r,
                        drop 1 (dropWhile (\<lambda>x. x \<noteq> CHR '')'') r))
             else tfrxExec cs)
      else tfrxExec cs)"

text \<open>The body of the loop over the matches: the \<open>switch\<close> on \<open>match[1]\<close>.\<close>

definition applyTransform :: "transformContext \<Rightarrow> string \<Rightarrow> string \<Rightarrow> error + transformContext" where
  "applyTransform ctx name args =
     (let parts = splitOn (CHR '','') args
      in if name = ''translate'' then
           (if length parts \<noteq> 2 then Inl (InvalidTransformParameters args)
            else Inr (ctx\<lparr>translate :=
                   (jsAdd (jsMul (fst (scale ctx)) (parseFloat (trim (parts ! 0)))) (fst (translate ctx)),
                    jsAdd (jsMul (snd (scale ctx)) (parseFloat (trim (parts ! 1)))) (snd (translate ctx)))\<rparr>))
         else if name = ''scale'' then
           (if length parts \<noteq> 2 then Inl (InvalidTransformParameters args)
            else Inr (ctx\<lparr>scale :=
                   (jsMul (fst (scale ctx)) (parseFloat (trim (parts ! 0))),
                    jsMul (snd (scale ctx)) (parseFloat (trim (parts ! 1))))\<rparr>))
         else Inl (UnsupportedTransform name))"

text \<open>The loop \<open>for (let match = tfrx.exec(transform); match; match = tfrx.exec(transform))\<close>.\<close>

function applyTransforms :: "string \<Rightarrow> transformContext \<Rightarrow> error + transformContext" where
  "applyTransforms transform ctx =
     (case tfrxExec transform of
        None \<Rightarrow> Inr ctx
      | Some (name, args, after) \<Rightarrow>
          (case applyTransform ctx name args of
             Inl e \<Rightarrow> Inl e
           | Inr ctx' \<Rightarrow> applyTransforms after ctx'))"
  by pat_completeness auto
termination
proof (relation "measure (\<lambda>(s, ctx). length s)", goal_cases)
  case 1
  show ?case by simp
next
  case (2 transform ctx x2 name y args after ctx')
  have "tfrxExec s = Some (n, a, r) \<Longrightarrow> length r < length s" for s n a r
  proof (induction s)
    case Nil
    then show ?case by simp
  next
    case (Cons c cs)
    show ?case
    proof (cases "tfrxExec (c # cs) = tfrxExec cs")
      case True
      with Cons show ?thesis by simp
    next
      case False
      with Cons.prems obtain p q where q: "dropWhile isLower cs = p # q"
        and r: "r = drop 1 (dropWhile (\<lambda>x. x \<noteq> CHR '')'') q)"
        by (auto split: if_splits list.splits)
      have "length r \<le> length q"
        using r length_dropWhile_le [of "\<lambda>x. x \<noteq> CHR '')''" q] by simp
      moreover have "length (p # q) \<le> length cs"
        using length_dropWhile_le [of isLower cs] q by simp
      ultimately show ?thesis by simp
    qed
  qed
  with 2 show ?case by auto
qed

declare applyTransforms.simps [simp del]

text \<open>
  The body of \<open>extractPaths\<close> up to the recursion (lines 69 to 123): the check of
  \<open>style\<close>, the transforms, the \<open>switch\<close> on \<open>nodeName\<close>. It returns the context for
  the children and the array \<open>paths\<close> after the \<open>push\<close>.
\<close>

definition visitNode ::
  "int \<Rightarrow> node \<Rightarrow> transformContext \<Rightarrow> string list \<Rightarrow> error + (transformContext \<times> string list)" where
  "visitNode precision n ctx paths =
     (if (case getAttrValue n ''style'' of None \<Rightarrow> False | Some style \<Rightarrow> includesStr style ''transform'')
      then Inl StyleTransform
      else
        (case applyTransforms
                (case getAttrValue n ''transform'' of None \<Rightarrow> ''undefined'' | Some t \<Rightarrow> t) ctx of
           Inl e \<Rightarrow> Inl e
         | Inr ctx' \<Rightarrow>
             if nodeName n \<in> {''rect'', ''circle'', ''ellipse'', ''line'', ''polyline''}
             then Inl (UnsupportedElement (nodeName n))
             else if nodeName n = ''path'' then
               (case getAttrValue n ''d'' of
                  None \<Rightarrow> Inr (ctx', paths)
                | Some data \<Rightarrow>
                    if data = [] then Inr (ctx', paths)
                    else (case normalizePathData data ctx' precision of
                            Inl e \<Rightarrow> Inl e
                          | Inr p \<Rightarrow> Inr (ctx', paths @ [p])))
             else Inr (ctx', paths)))"

text \<open>
  \<open>extractPaths\<close>, with the array \<open>paths\<close> passed in and returned;
  \<open>extractPathsEach\<close> is \<open>node.childNodes?.forEach(c => extractPaths(c, context))\<close>.
\<close>

fun extractPaths :: "int \<Rightarrow> node \<Rightarrow> transformContext \<Rightarrow> string list \<Rightarrow> error + string list"
  and extractPathsEach :: "int \<Rightarrow> node list \<Rightarrow> transformContext \<Rightarrow> string list \<Rightarrow> error + string list" where
  "extractPaths precision (Node name as cs) ctx paths =
     (case visitNode precision (Node name as cs) ctx paths of
        Inl e \<Rightarrow> Inl e
      | Inr (ctx', paths') \<Rightarrow> extractPathsEach precision cs ctx' paths')"
| "extractPathsEach precision [] ctx paths = Inr paths"
| "extractPathsEach precision (c # cs) ctx paths =
     (case extractPaths precision c ctx paths of
        Inl e \<Rightarrow> Inl e
      | Inr paths' \<Rightarrow> extractPathsEach precision cs ctx paths')"

text \<open>
  The argument of \<open>sketchToIcon\<close>. \<open>input\<close> is the tree \<open>parseFragment(options.input)\<close>;
  an option that is \<open>None\<close> is \<open>undefined\<close> and takes its default.
\<close>

record options =
  input :: node
  exportedPaddingFactor :: "jsnum option"
  fill :: "string option"
  fillRule :: "string option"
  precision :: "int option"

text \<open>The template literal of the \<open>return\<close> statement.\<close>

definition document :: "jsnum \<Rightarrow> jsnum \<Rightarrow> string list \<Rightarrow> string \<Rightarrow> string \<Rightarrow> string" where
  \<open>document width height paths fillColor rule =
     ''<svg xmlns="http://www.w3.org/2000/svg" version="1.1" viewBox="0 0 '' @ toString width @ '' ''
       @ toString height @ ''"><path d="'' @ joinWith '' '' paths @ ''" fill="'' @ fillColor
       @ ''" fill-rule="'' @ rule @ ''" /></svg>''\<close>

definition sketchToIcon :: "options \<Rightarrow> error + string" where
  "sketchToIcon opts =
     (let prec = (case precision opts of None \<Rightarrow> 5 | Some p \<Rightarrow> p)
      in case findRoot (input opts) of
           None \<Rightarrow> Inl MissingRoot
         | Some rootNode \<Rightarrow>
             (let pad = (case exportedPaddingFactor opts of None \<Rightarrow> Fin (1 / 100) | Some f \<Rightarrow> f)
              in case getAttrValue rootNode ''viewBox'' of
                   None \<Rightarrow> Inl MissingViewBox
                 | Some viewBoxStr \<Rightarrow>
                     if viewBoxStr = [] then Inl MissingViewBox
                     else
                       (case resolveViewBox viewBoxStr pad of
                          Inl e \<Rightarrow> Inl e
                        | Inr (xOffset, yOffset, width, height) \<Rightarrow>
                            (case extractPaths prec rootNode
                                    \<lparr>translate = (xOffset, yOffset), scale = (Fin 1, Fin 1)\<rparr> [] of
                               Inl e \<Rightarrow> Inl e
                             | Inr paths \<Rightarrow>
                                 Inr (document width height paths
                                        (case fill opts of None \<Rightarrow> ''currentColor'' | Some f \<Rightarrow> f)
                                        (case fillRule opts of None \<Rightarrow> ''evenodd'' | Some r \<Rightarrow> r))))))"

section \<open>The specification's words, for comparison with the source\<close>

text \<open>
  The composition rule of the specification: a token \<open>translate(dx, dy)\<close> met with
  the context \<open>(t, s)\<close> gives the translation \<open>(s.x*dx + t.x, s.y*dy + t.y)\<close>, a token
  \<open>scale(sx, sy)\<close> the scale \<open>(s.x*sx, s.y*sy)\<close>.
\<close>

datatype transformToken = Translate jsnum jsnum | Scale jsnum jsnum

fun composeToken :: "transformContext \<Rightarrow> transformToken \<Rightarrow> transformContext" where
  "composeToken ctx (Translate dx dy) =
     ctx\<lparr>translate := (jsAdd (jsMul (fst (scale ctx)) dx) (fst (translate ctx)),
                        jsAdd (jsMul (snd (scale ctx)) dy) (snd (translate ctx)))\<rparr>"
| "composeToken ctx (Scale sx sy) =
     ctx\<lparr>scale := (jsMul (fst (scale ctx)) sx, jsMul (snd (scale ctx)) sy)\<rparr>"

text \<open>
  A token as it is written in a \<open>transform\<close> attribute, with the texts of its two
  arguments; the text of the token, and the token with the numbers \<open>parseFloat\<close>
  reads from the trimmed argument texts.
\<close>

datatype tokenText = TranslateText string string | ScaleText string string

fun renderToken :: "tokenText \<Rightarrow> string" where
  "renderToken (TranslateText a b) = ''translate('' @ a @ '','' @ b @ '')''"
| "renderToken (ScaleText a b) = ''scale('' @ a @ '','' @ b @ '')''"

fun tokenValue :: "tokenText \<Rightarrow> transformToken" where
  "tokenValue (TranslateText a b) = Translate (parseFloat (trim a)) (parseFloat (trim b))"
| "tokenValue (ScaleText a b) = Scale (parseFloat (trim a)) (parseFloat (trim b))"

text \<open>The argument texts contain neither a comma nor a closing parenthesis.\<close>

fun plainArgs :: "tokenText \<Rightarrow> bool" where
  "plainArgs (TranslateText a b) =
     (CHR '','' \<notin> set a \<and> CHR '')'' \<notin> set a \<and> CHR '','' \<notin> set b \<and> CHR '')'' \<notin> set b)"
| "plainArgs (ScaleText a b) =
     (CHR '','' \<notin> set a \<and> CHR '')'' \<notin> set a \<and> CHR '','' \<notin> set b \<and> CHR '')'' \<notin> set b)"

text \<open>
  The traversal of the specification: the normalized data of a path element, then
  the strings of its children from left to right, every child under the context its
  parent's transform attribute gives.
\<close>

definition contextAfter :: "node \<Rightarrow> transformContext \<Rightarrow> transformContext" where
  "contextAfter n ctx =
     (case applyTransforms (case getAttrValue n ''transform'' of None \<Rightarrow> ''undefined'' | Some t \<Rightarrow> t) ctx of
        Inl e \<Rightarrow> ctx
      | Inr ctx' \<Rightarrow> ctx')"

definition ownPath :: "int \<Rightarrow> node \<Rightarrow> transformContext \<Rightarrow> string list" where
  "ownPath p n ctx =
     (if nodeName n = ''path'' then
        (case getAttrValue n ''d'' of
           None \<Rightarrow> []
         | Some data \<Rightarrow>
             if data = [] then []
             else (case normalizePathData data ctx p of Inl e \<Rightarrow> [] | Inr s \<Rightarrow> [s]))
      else [])"

fun pathsInOrder :: "int \<Rightarrow> node \<Rightarrow> transformContext \<Rightarrow> string list" where
  "pathsInOrder p (Node name as cs) ctx =
     ownPath p (Node name as cs) (contextAfter (Node name as cs) ctx)
       @ concat (map (\<lambda>c. pathsInOrder p c (contextAfter (Node name as cs) ctx)) cs)"

text \<open>
  The names of the tokens the loop over \<open>tfrx.exec\<close> meets in a \<open>transform\<close>
  attribute, in order.
\<close>

function tfrxNames :: "string \<Rightarrow> string list" where
  "tfrxNames transform =
     (case tfrxExec transform of
        None \<Rightarrow> []
      | Some (name, args, after) \<Rightarrow> name # tfrxNames after)"
  by pat_completeness auto
termination
proof (relation "measure length", goal_cases)
  case 1
  show ?case by simp
next
  case (2 transform x2 name y args after)
  have "tfrxExec s = Some (n, a, r) \<Longrightarrow> length r < length s" for s n a r
  proof (induction s)
    case Nil
    then show ?case by simp
  next
    case (Cons c cs)
    show ?case
    proof (cases "tfrxExec (c # cs) = tfrxExec cs")
      case True
      with Cons show ?thesis by simp
    next
      case False
      with Cons.prems obtain p q where q: "dropWhile isLower cs = p # q"
        and r: "r = drop 1 (dropWhile (\<lambda>x. x \<noteq> CHR '')'') q)"
        by (auto split: if_splits list.splits)
      have "length r \<le> length q"
        using r length_dropWhile_le [of "\<lambda>x. x \<noteq> CHR '')''" q] by simp
      moreover have "length (p # q) \<le> length cs"
        using length_dropWhile_le [of isLower cs] q by simp
      ultimately show ?thesis by simp
    qed
  qed
  with 2 show ?case by auto
qed

declare tfrxNames.simps [simp del]

text \<open>A command letter with arguments: the letter, directly followed by a non-letter.\<close>

fun hasCommand :: "char \<Rightarrow> string \<Rightarrow> bool" where
  "hasCommand l (c # d # r) = ((c = l \<and> \<not> isLetter d) \<or> hasCommand l (d # r))"
| "hasCommand l cs = False"

text \<open>The nodes of a subtree, in document order.\<close>

fun subnodes :: "node \<Rightarrow> node list" where
  "subnodes (Node name as cs) = Node name as cs # concat (map subnodes cs)"

text \<open>
  The inputs the specification lists as unsupported: a rejected shape, a \<open>transform\<close>
  attribute with a \<open>rotate\<close> token, a path whose data have a \<open>C\<close> command.
\<close>

definition unsupportedNode :: "node \<Rightarrow> bool" where
  "unsupportedNode n =
     (nodeName n \<in> {''rect'', ''circle'', ''ellipse'', ''line'', ''polyline''}
      \<or> ''rotate'' \<in> set (tfrxNames (case getAttrValue n ''transform'' of None \<Rightarrow> ''undefined'' | Some t \<Rightarrow> t))
      \<or> (nodeName n = ''path'' \<and>
          (case getAttrValue n ''d'' of None \<Rightarrow> False | Some data \<Rightarrow> hasCommand (CHR ''C'') data)))"

text \<open>The two errors of the loop over the transform tokens.\<close>

fun transformError :: "error \<Rightarrow> bool" where
  "transformError (InvalidTransformParameters s) = True"
| "transformError (UnsupportedTransform s) = True"
| "transformError e = False"

text \<open>
  Path data as a list of commands, for the comparison of the rewrite with the
  specification. A command is a letter with its arguments; in the text of the data
  the letters and the arguments are separated by single spaces. An argument is a
  non-empty text without letters and without white space.
\<close>

datatype pathCommand = Command char "string list"

fun commandTokens :: "pathCommand \<Rightarrow> string list" where
  "commandTokens (Command l args) = [l] # args"

definition pathText :: "pathCommand list \<Rightarrow> string" where
  "pathText cmds = joinWith '' '' (concat (map commandTokens cmds))"

definition argText :: "string \<Rightarrow> bool" where
  "argText a = (a \<noteq> [] \<and> list_all (\<lambda>c. \<not> isLetter c \<and> \<not> isSpace c) a)"

text \<open>
  The commands the specification lists with their arguments: \<open>M\<close> and \<open>L\<close> with a
  point, \<open>A\<close> with its seven arguments. Further arguments may follow.
\<close>

fun supportedCommand :: "pathCommand \<Rightarrow> bool" where
  "supportedCommand (Command l args) =
     (list_all argText args \<and>
      (if l = CHR ''A'' then 7 \<le> length args
       else (l = CHR ''M'' \<or> l = CHR ''L'') \<and> 2 \<le> length args))"

text \<open>
  The rewrite of the specification. A point \<open>(x, y)\<close> becomes
  \<open>(x*scale.x + translate.x, y*scale.y + translate.y)\<close>. An arc has its radii
  multiplied by the scale and its end point rewritten as a point; when the product
  of the two scale factors is negative, its rotation is negated and its sweep flag
  flipped. Arguments after those are kept.
\<close>

fun rewritePoint :: "transformContext \<Rightarrow> string list \<Rightarrow> string list" where
  "rewritePoint ctx (x # y # rest) =
     toString (jsAdd (jsMul (parseFloat x) (fst (scale ctx))) (fst (translate ctx)))
     # toString (jsAdd (jsMul (parseFloat y) (snd (scale ctx))) (snd (translate ctx)))
     # rest"
| "rewritePoint ctx args = args"

fun rewriteArc :: "transformContext \<Rightarrow> string list \<Rightarrow> string list" where
  "rewriteArc ctx (rx # ry # rot # largeArc # sweep # rest) =
     toString (jsMul (parseFloat rx) (fst (scale ctx)))
     # toString (jsMul (parseFloat ry) (snd (scale ctx)))
     # (if jsLess (jsMul (fst (scale ctx)) (snd (scale ctx))) (Fin 0)
        then toString (jsNeg (parseFloat rot)) else rot)
     # largeArc
     # (if jsLess (jsMul (fst (scale ctx)) (snd (scale ctx))) (Fin 0)
        then (if parseFloat sweep = Fin 1 then ''0'' else ''1'') else sweep)
     # rewritePoint ctx rest"
| "rewriteArc ctx args = args"

fun rewriteCommand :: "transformContext \<Rightarrow> pathCommand \<Rightarrow> pathCommand" where
  "rewriteCommand ctx (Command l args) =
     Command l (if l = CHR ''A'' then rewriteArc ctx args else rewritePoint ctx args)"





section \<open>Evaluation\<close>

text \<open>
  The recursive equations of \<open>natDigits\<close> and \<open>stripZeros\<close> as conditional rules, and
  the facts the simplifier needs to run the definitions on literals.
\<close>

lemma stripZeros_step: "s \<noteq> 0 \<Longrightarrow> s mod 10 = 0 \<Longrightarrow> stripZeros s e = stripZeros (s div 10) (e + 1)"
  by (subst stripZeros.simps) simp

lemma stripZeros_stop: "s = 0 \<or> s mod 10 \<noteq> 0 \<Longrightarrow> stripZeros s e = (s, e)"
  by (subst stripZeros.simps) auto

lemma natDigits_small: "n < 10 \<Longrightarrow> natDigits n = [digitChar n]"
  by (subst natDigits.simps) simp

lemma natDigits_big: "10 \<le> n \<Longrightarrow> natDigits n = natDigits (n div 10) @ [digitChar (n mod 10)]"
  by (subst natDigits.simps) simp

lemma floor_rat_numeral: "\<lfloor>numeral a / numeral b :: rat\<rfloor> = numeral a div numeral b"
  using floor_divide_of_int_eq [of "numeral a" "numeral b", where ?'a = rat] by simp

lemma ceiling_rat_numeral: "\<lceil>numeral a / numeral b :: rat\<rceil> = - (- numeral a div numeral b)"
  using ceiling_divide_eq_div [of "numeral a" "numeral b", where ?'a = rat] by simp

lemma replicate_numeral_eval: "replicate (numeral k) x = x # replicate (pred_numeral k) x"
  by (simp add: numeral_eq_Suc)

lemmas num_eval =
  isLower_def isLetter_def isDigit_def isSpace_def digitChar_def digitVal_def digitsVal_def pow10_def
  exponentPart_def unsignedDecimal_def signedLiteral_def parseFloat_def parseFloatU_def trim_def
  stringToNumber_def decExp_def shortest_def renderPos_def toFixedDigits_def
  stripZeros_step stripZeros_stop natDigits_small natDigits_big floor_rat_numeral ceiling_rat_numeral
  replicate_numeral_eval jsSub_def isNaN_def Let_def

lemmas js_eval =
  num_eval
  getAt_def setAt_def parseFloatAt_def getAttrValue_def transformParts_def transformCommand_def
  matchDecimal_def limitNumber_def normalizePathData_def viewBoxNumbers_def resolveViewBox_def
  applyTransform_def applyTransforms.simps visitNode_def document_def sketchToIcon_def

lemma jsNaN_simps [simp]:
  "jsAdd x NaN = NaN" "jsMul x NaN = NaN" "jsDiv x NaN = NaN" "jsNeg x = NaN \<longleftrightarrow> x = NaN"
  "jsDiv NaN y = NaN" "jsMul NaN y = NaN" "jsAdd NaN y = NaN"
  by (cases x; simp)+

section \<open>Re-basing on the origin of the view box\<close>

text \<open>
  Claim C1. With padding factor \<open>0\<close> and no transform, a coordinate should come out as
  the input coordinate minus the origin of the view box. For the view box
  \<open>10 20 100 100\<close> and the path \<open>M 10 20 L 110 120\<close> the source instead adds the
  origin: the corner \<open>(10, 20)\<close> of the view box is written as \<open>(20, 40)\<close>, not \<open>(0, 0)\<close>.
\<close>

theorem origin_added_at_nonzero_viewBox:
  \<open>sketchToIcon
     \<lparr>input = Node ''#document-fragment'' []
        [Node ''svg'' [(''viewBox'', ''10 20 100 100'')]
           [Node ''path'' [(''d'', ''M 10 20 L 110 120'')] []]],
      exportedPaddingFactor = Some (Fin 0), fill = None, fillRule = None, precision = None\<rparr>
   = Inr ''<svg xmlns="http://www.w3.org/2000/svg" version="1.1" viewBox="0 0 100 100"><path d="M 20 40 L 120 140" fill="currentColor" fill-rule="evenodd" /></svg>''\<close>
  by (simp add: js_eval)

section \<open>The check of the view box\<close>

text \<open>
  Claim C6, as stated: the resolver fails when a parsed or derived number is not
  finite, and the width and height are positive. For the attribute
  \<open>0 0 Infinity -10\<close> and the default padding factor the source accepts an infinite
  width, an infinite offset and a negative height.
\<close>

theorem viewBox_infinite_and_negative_accepted:
  "resolveViewBox ''0 0 Infinity -10'' (Fin (1 / 100)) =
     Inr (NInf, Fin (5 / 51), PInf, Fin (- (500 / 51)))"
  by (simp add: js_eval)

text \<open>
  Claim C6, amended: the resolver fails, with the error of an invalid view box,
  exactly when one of the four derived numbers is \<open>NaN\<close>; this is the case whenever one
  of the four parsed numbers is \<open>NaN\<close>. Otherwise it returns the four derived numbers.
\<close>

theorem resolveViewBox_fails_iff_NaN:
  "(case viewBoxNumbers viewBoxStr pad of
      (x, y, w, h) \<Rightarrow>
        resolveViewBox viewBoxStr pad =
          (if x = NaN \<or> y = NaN \<or> w = NaN \<or> h = NaN then Inl InvalidViewBox else Inr (x, y, w, h)))
   \<and> ((\<exists>i<4. parseFloatAt (map PStr (splitOn (CHR '' '') viewBoxStr)) i = NaN)
        \<longrightarrow> resolveViewBox viewBoxStr pad = Inl InvalidViewBox)"
proof (rule conjI)
  show eq: "case viewBoxNumbers viewBoxStr pad of
      (x, y, w, h) \<Rightarrow>
        resolveViewBox viewBoxStr pad =
          (if x = NaN \<or> y = NaN \<or> w = NaN \<or> h = NaN then Inl InvalidViewBox else Inr (x, y, w, h))"
    by (simp add: resolveViewBox_def isNaN_def split: prod.splits)
  show "(\<exists>i<4. parseFloatAt (map PStr (splitOn (CHR '' '') viewBoxStr)) i = NaN)
        \<longrightarrow> resolveViewBox viewBoxStr pad = Inl InvalidViewBox"
  proof
    assume "\<exists>i<4. parseFloatAt (map PStr (splitOn (CHR '' '') viewBoxStr)) i = NaN"
    then obtain i where i: "i < 4" "parseFloatAt (map PStr (splitOn (CHR '' '') viewBoxStr)) i = NaN"
      by blast
    then have "i = 0 \<or> i = 1 \<or> i = 2 \<or> i = 3" by arith
    with i(2) show "resolveViewBox viewBoxStr pad = Inl InvalidViewBox"
      by (auto simp: resolveViewBox_def viewBoxNumbers_def Let_def isNaN_def jsSub_def)
  qed
qed

theorem resolveViewBox_fails_iff_NaN_witness:
  "(\<exists>i<4. parseFloatAt (map PStr (splitOn (CHR '' '') ''0 0 abc 10'')) i = NaN)
   \<and> viewBoxNumbers ''0 0 abc 10'' (Fin (1 / 100)) = (NaN, Fin (- (5 / 51)), NaN, Fin (500 / 51))
   \<and> resolveViewBox ''0 0 abc 10'' (Fin (1 / 100)) = Inl InvalidViewBox"
proof -
  have nan: "parseFloatAt (map PStr (splitOn (CHR '' '') ''0 0 abc 10'')) 2 = NaN"
    by (simp add: js_eval)
  then have ex: "\<exists>i<4. parseFloatAt (map PStr (splitOn (CHR '' '') ''0 0 abc 10'')) i = NaN"
    by (intro exI [of _ 2]) simp
  moreover have "viewBoxNumbers ''0 0 abc 10'' (Fin (1 / 100)) = (NaN, Fin (- (5 / 51)), NaN, Fin (500 / 51))"
    by (simp add: js_eval)
  ultimately show ?thesis
    using resolveViewBox_fails_iff_NaN [of "''0 0 abc 10''" "Fin (1 / 100)"] by simp
qed

section \<open>Nodes that contribute no geometry\<close>

text \<open>
  Claim C9. A node whose name is neither \<open>path\<close> nor one of the five rejected shapes
  raises no error for its kind: the only errors of the visit are those of its \<open>style\<close>
  and \<open>transform\<close> attributes; the array of paths is passed on unchanged, and the
  children are visited with the context the transform attribute gives.
\<close>

theorem extractPaths_other_kind:
  assumes "name \<noteq> ''path''"
    and "name \<notin> {''rect'', ''circle'', ''ellipse'', ''line'', ''polyline''}"
  shows "extractPaths p (Node name as cs) ctx paths =
     (if (case map_of as ''style'' of None \<Rightarrow> False | Some style \<Rightarrow> includesStr style ''transform'')
      then Inl StyleTransform
      else (case applyTransforms (case map_of as ''transform'' of None \<Rightarrow> ''undefined'' | Some t \<Rightarrow> t) ctx of
              Inl e \<Rightarrow> Inl e
            | Inr ctx' \<Rightarrow> extractPathsEach p cs ctx' paths))"
  using assms by (simp add: visitNode_def getAttrValue_def split: sum.splits)

theorem extractPaths_other_kind_witness:
  "''g'' \<noteq> ''path'' \<and> ''g'' \<notin> {''rect'', ''circle'', ''ellipse'', ''line'', ''polyline''}
   \<and> extractPaths 5 (Node ''g'' [(''transform'', ''translate(1,2)'')] [Node ''path'' [(''d'', ''M 0 0'')] []])
        \<lparr>translate = (Fin 0, Fin 0), scale = (Fin 1, Fin 1)\<rparr> [] = Inr [''M 1 2'']"
  using extractPaths_other_kind [of "''g''" 5 "[(''transform'', ''translate(1,2)'')]"
      "[Node ''path'' [(''d'', ''M 0 0'')] []]" "\<lparr>translate = (Fin 0, Fin 0), scale = (Fin 1, Fin 1)\<rparr>" "[]"]
  by (simp add: js_eval)

section \<open>Path elements without data\<close>

text \<open>
  Claim C10. A \<open>path\<close> element whose \<open>d\<close> attribute is absent or empty raises no error
  for it and appends nothing: the only errors of the visit are those of its \<open>style\<close>
  and \<open>transform\<close> attributes, and the children are visited with the array of paths
  unchanged.
\<close>

theorem extractPaths_path_without_data:
  assumes "map_of as ''d'' = None \<or> map_of as ''d'' = Some []"
  shows "extractPaths p (Node ''path'' as cs) ctx paths =
     (if (case map_of as ''style'' of None \<Rightarrow> False | Some style \<Rightarrow> includesStr style ''transform'')
      then Inl StyleTransform
      else (case applyTransforms (case map_of as ''transform'' of None \<Rightarrow> ''undefined'' | Some t \<Rightarrow> t) ctx of
              Inl e \<Rightarrow> Inl e
            | Inr ctx' \<Rightarrow> extractPathsEach p cs ctx' paths))"
  using assms by (auto simp: visitNode_def getAttrValue_def split: sum.splits)

theorem extractPaths_path_without_data_witness:
  "(map_of [(''d'', [])] ''d'' = None \<or> map_of [(''d'', [])] ''d'' = Some ([] :: string))
   \<and> extractPaths 5 (Node ''path'' [(''d'', [])] [Node ''path'' [(''d'', ''M 3 4'')] []])
        \<lparr>translate = (Fin 0, Fin 0), scale = (Fin 1, Fin 1)\<rparr> [''M 1 2''] = Inr [''M 1 2'', ''M 3 4'']"
  using extractPaths_path_without_data [of "[(''d'', [])]" 5 "[Node ''path'' [(''d'', ''M 3 4'')] []]"
      "\<lparr>translate = (Fin 0, Fin 0), scale = (Fin 1, Fin 1)\<rparr>" "[''M 1 2'']"]
  by (simp add: js_eval)

section \<open>Composition of transforms\<close>

lemma tfrxExec_skip: "\<not> isLower c \<Longrightarrow> tfrxExec (c # s) = tfrxExec s"
  by simp

lemma tfrxExec_token:
  assumes "name \<noteq> []" "\<forall>c\<in>set name. isLower c" "CHR '')'' \<notin> set args"
  shows "tfrxExec (name @ ''('' @ args @ '')'' @ rest) = Some (name, args, rest)"
proof -
  from assms(1) obtain c cs where name: "name = c # cs"
    by (cases name) auto
  have low: "\<And>x. x \<in> set cs \<Longrightarrow> isLower x" and c: "isLower c"
    using assms(2) name by auto
  have paren: "\<not> isLower (CHR ''('')"
    by (simp add: isLower_def)
  have d: "dropWhile isLower (cs @ CHR ''('' # args @ CHR '')'' # rest) = CHR ''('' # args @ CHR '')'' # rest"
    using low paren by simp
  have t: "takeWhile isLower (cs @ CHR ''('' # args @ CHR '')'' # rest) = cs"
    using low paren by simp
  have a: "takeWhile (\<lambda>x. x \<noteq> CHR '')'') (args @ CHR '')'' # rest) = args"
    using assms(3) by (induction args) auto
  have b: "dropWhile (\<lambda>x. x \<noteq> CHR '')'') (args @ CHR '')'' # rest) = CHR '')'' # rest"
    using assms(3) by (induction args) auto
  show ?thesis
    using c d t a b by (simp add: name)
qed

lemma splitOn_append:
  "sep \<notin> set a \<Longrightarrow> splitOn sep (a @ sep # r) = a # splitOn sep r"
  by (induction a) auto

lemma splitOn_single:
  "sep \<notin> set a \<Longrightarrow> splitOn sep a = [a]"
  by (induction a) auto

lemma applyTransform_token:
  assumes "plainArgs t"
  shows "\<exists>name args. renderToken t = name @ ''('' @ args @ '')'' \<and> name \<noteq> [] \<and> (\<forall>c\<in>set name. isLower c)
           \<and> CHR '')'' \<notin> set args \<and> applyTransform ctx name args = Inr (composeToken ctx (tokenValue t))"
proof (cases t)
  case (TranslateText a b)
  with assms have s: "splitOn (CHR '','') (a @ '','' @ b) = [a, b]"
    by (simp add: splitOn_append splitOn_single)
  have "applyTransform ctx ''translate'' (a @ '','' @ b) = Inr (composeToken ctx (tokenValue t))"
    using s by (simp add: applyTransform_def TranslateText)
  moreover have "\<forall>c\<in>set ''translate''. isLower c"
    by (simp add: isLower_def)
  ultimately show ?thesis
    using assms TranslateText
    by (intro exI [of _ "''translate''"] exI [of _ "a @ '','' @ b"]) simp
next
  case (ScaleText a b)
  with assms have s: "splitOn (CHR '','') (a @ '','' @ b) = [a, b]"
    by (simp add: splitOn_append splitOn_single)
  have "applyTransform ctx ''scale'' (a @ '','' @ b) = Inr (composeToken ctx (tokenValue t))"
    using s by (simp add: applyTransform_def ScaleText)
  moreover have "\<forall>c\<in>set ''scale''. isLower c"
    by (simp add: isLower_def)
  ultimately show ?thesis
    using assms ScaleText
    by (intro exI [of _ "''scale''"] exI [of _ "a @ '','' @ b"]) simp
qed

lemma applyTransforms_step:
  assumes "plainArgs t"
  shows "applyTransforms (renderToken t @ rest) ctx = applyTransforms rest (composeToken ctx (tokenValue t))"
proof -
  from applyTransform_token [OF assms, of ctx] obtain name args where
    r: "renderToken t = name @ ''('' @ args @ '')''" and n: "name \<noteq> []" "\<forall>c\<in>set name. isLower c"
    and a: "CHR '')'' \<notin> set args"
    and ap: "applyTransform ctx name args = Inr (composeToken ctx (tokenValue t))"
    by blast
  have "tfrxExec (renderToken t @ rest) = Some (name, args, rest)"
    using tfrxExec_token [OF n a, of rest] by (simp add: r)
  then show ?thesis
    by (subst applyTransforms.simps) (simp add: ap)
qed

lemma applyTransforms_skip:
  "\<not> isLower c \<Longrightarrow> applyTransforms (c # s) ctx = applyTransforms s ctx"
  by (simp add: applyTransforms.simps [of "c # s"] applyTransforms.simps [of s])

lemma applyTransforms_tokens:
  assumes "\<forall>t\<in>set toks. plainArgs t"
  shows "applyTransforms (joinWith '' '' (map renderToken toks)) ctx
           = Inr (foldl composeToken ctx (map tokenValue toks))"
  using assms
proof (induction toks arbitrary: ctx)
  case Nil
  show ?case by (subst applyTransforms.simps) simp
next
  case (Cons t ts)
  show ?case
  proof (cases ts)
    case Nil
    have "applyTransforms (renderToken t @ []) ctx = applyTransforms [] (composeToken ctx (tokenValue t))"
      using Cons.prems by (intro applyTransforms_step) simp
    moreover have "applyTransforms [] c = Inr c" for c
      by (subst applyTransforms.simps) simp
    ultimately show ?thesis
      by (simp add: Nil)
  next
    case (Cons u us)
    have "applyTransforms (renderToken t @ '' '' @ joinWith '' '' (map renderToken ts)) ctx
            = applyTransforms ('' '' @ joinWith '' '' (map renderToken ts)) (composeToken ctx (tokenValue t))"
      using Cons.prems by (intro applyTransforms_step) simp
    also have "\<dots> = applyTransforms (joinWith '' '' (map renderToken ts)) (composeToken ctx (tokenValue t))"
      by (simp add: applyTransforms_skip isLower_def)
    also have "\<dots> = Inr (foldl composeToken (composeToken ctx (tokenValue t)) (map tokenValue ts))"
      using Cons.prems by (intro Cons.IH) simp
    finally show ?thesis
      by (simp add: Cons)
  qed
qed

text \<open>
  Claim C2. For a node whose \<open>transform\<close> attribute is a sequence of \<open>translate\<close> and
  \<open>scale\<close> tokens, the loop over the tokens leaves the running context composed token
  by token from left to right by the rule of the specification, every \<open>translate\<close>
  under the scale current when it is met. The walker uses that context for the data
  of the node itself and hands it to every child, which composes its own tokens on
  top of it.
\<close>

theorem transform_tokens_compose_left_to_right:
  assumes "\<forall>t\<in>set toks. plainArgs t"
    and "map_of as ''transform'' = Some (joinWith '' '' (map renderToken toks))"
  shows "applyTransforms (joinWith '' '' (map renderToken toks)) ctx
           = Inr (foldl composeToken ctx (map tokenValue toks))
         \<and> (visitNode p (Node name as cs) ctx paths = Inr (ctx', paths')
              \<longrightarrow> ctx' = foldl composeToken ctx (map tokenValue toks))
         \<and> extractPaths p (Node name as cs) ctx paths =
             (if (case map_of as ''style'' of None \<Rightarrow> False | Some style \<Rightarrow> includesStr style ''transform'')
              then Inl StyleTransform
              else if name \<in> {''rect'', ''circle'', ''ellipse'', ''line'', ''polyline''}
              then Inl (UnsupportedElement name)
              else if name = ''path'' \<and> map_of as ''d'' \<noteq> None \<and> map_of as ''d'' \<noteq> Some []
              then (case normalizePathData (the (map_of as ''d''))
                           (foldl composeToken ctx (map tokenValue toks)) p of
                      Inl e \<Rightarrow> Inl e
                    | Inr s \<Rightarrow>
                        extractPathsEach p cs (foldl composeToken ctx (map tokenValue toks)) (paths @ [s]))
              else extractPathsEach p cs (foldl composeToken ctx (map tokenValue toks)) paths)
         \<and> extractPathsEach p (Node cname cas ccs # rest) ctx paths =
             (case extractPaths p (Node cname cas ccs) ctx paths of
                Inl e \<Rightarrow> Inl e
              | Inr paths' \<Rightarrow> extractPathsEach p rest ctx paths')"
proof -
  note t = applyTransforms_tokens [OF assms(1), of ctx]
  have v: "visitNode p (Node name as cs) ctx paths = Inr (ctx', paths')
             \<longrightarrow> ctx' = foldl composeToken ctx (map tokenValue toks)"
    using t assms(2)
    by (auto simp: visitNode_def getAttrValue_def split: if_splits option.splits sum.splits)
  have e: "extractPaths p (Node name as cs) ctx paths =
             (if (case map_of as ''style'' of None \<Rightarrow> False | Some style \<Rightarrow> includesStr style ''transform'')
              then Inl StyleTransform
              else if name \<in> {''rect'', ''circle'', ''ellipse'', ''line'', ''polyline''}
              then Inl (UnsupportedElement name)
              else if name = ''path'' \<and> map_of as ''d'' \<noteq> None \<and> map_of as ''d'' \<noteq> Some []
              then (case normalizePathData (the (map_of as ''d''))
                           (foldl composeToken ctx (map tokenValue toks)) p of
                      Inl e \<Rightarrow> Inl e
                    | Inr s \<Rightarrow>
                        extractPathsEach p cs (foldl composeToken ctx (map tokenValue toks)) (paths @ [s]))
              else extractPathsEach p cs (foldl composeToken ctx (map tokenValue toks)) paths)"
    using t assms(2)
    by (auto simp: visitNode_def getAttrValue_def split: option.splits sum.splits)
  show ?thesis
    using t v e by simp
qed

theorem transform_tokens_compose_left_to_right_witness:
  "plainArgs (TranslateText ''10'' ''0'') \<and> plainArgs (ScaleText ''2'' ''1'') \<and> plainArgs (TranslateText ''5'' ''0'')
   \<and> map_of [(''transform'', ''translate(10,0) scale(2,1)'')] ''transform''
        = Some (joinWith '' '' (map renderToken [TranslateText ''10'' ''0'', ScaleText ''2'' ''1'']))
   \<and> map_of [(''transform'', ''translate(5,0)''), (''d'', ''M 0 0 L 1 1'')] ''transform''
        = Some (joinWith '' '' (map renderToken [TranslateText ''5'' ''0'']))
   \<and> foldl composeToken \<lparr>translate = (Fin 0, Fin 0), scale = (Fin 1, Fin 1)\<rparr>
        (map tokenValue [TranslateText ''10'' ''0'', ScaleText ''2'' ''1''])
        = \<lparr>translate = (Fin 10, Fin 0), scale = (Fin 2, Fin 1)\<rparr>
   \<and> foldl composeToken \<lparr>translate = (Fin 10, Fin 0), scale = (Fin 2, Fin 1)\<rparr>
        (map tokenValue [TranslateText ''5'' ''0''])
        = \<lparr>translate = (Fin 20, Fin 0), scale = (Fin 2, Fin 1)\<rparr>
   \<and> visitNode 5
        (Node ''g'' [(''transform'', ''translate(10,0) scale(2,1)'')]
           [Node ''path'' [(''transform'', ''translate(5,0)''), (''d'', ''M 0 0 L 1 1'')] []])
        \<lparr>translate = (Fin 0, Fin 0), scale = (Fin 1, Fin 1)\<rparr> []
      = Inr (\<lparr>translate = (Fin 10, Fin 0), scale = (Fin 2, Fin 1)\<rparr>, [])
   \<and> extractPaths 5
        (Node ''g'' [(''transform'', ''translate(10,0) scale(2,1)'')]
           [Node ''path'' [(''transform'', ''translate(5,0)''), (''d'', ''M 0 0 L 1 1'')] []])
        \<lparr>translate = (Fin 0, Fin 0), scale = (Fin 1, Fin 1)\<rparr> []
      = extractPathsEach 5 [Node ''path'' [(''transform'', ''translate(5,0)''), (''d'', ''M 0 0 L 1 1'')] []]
          \<lparr>translate = (Fin 10, Fin 0), scale = (Fin 2, Fin 1)\<rparr> []
   \<and> normalizePathData ''M 0 0 L 1 1'' \<lparr>translate = (Fin 20, Fin 0), scale = (Fin 2, Fin 1)\<rparr> 5
        = Inr ''M 20 0 L 22 1''
   \<and> extractPaths 5
        (Node ''g'' [(''transform'', ''translate(10,0) scale(2,1)'')]
           [Node ''path'' [(''transform'', ''translate(5,0)''), (''d'', ''M 0 0 L 1 1'')] []])
        \<lparr>translate = (Fin 0, Fin 0), scale = (Fin 1, Fin 1)\<rparr> [] = Inr [''M 20 0 L 22 1'']"
proof -
  let ?child = "Node ''path'' [(''transform'', ''translate(5,0)''), (''d'', ''M 0 0 L 1 1'')] []"
  let ?c0 = "\<lparr>translate = (Fin 0, Fin 0), scale = (Fin 1, Fin 1)\<rparr>"
  let ?c1 = "\<lparr>translate = (Fin 10, Fin 0), scale = (Fin 2, Fin 1)\<rparr>"
  let ?c2 = "\<lparr>translate = (Fin 20, Fin 0), scale = (Fin 2, Fin 1)\<rparr>"
  have a: "\<forall>t\<in>set [TranslateText ''10'' ''0'', ScaleText ''2'' ''1'']. plainArgs t"
    by simp
  have b: "\<forall>t\<in>set [TranslateText ''5'' ''0'']. plainArgs t"
    by simp
  have ma: "map_of [(''transform'', ''translate(10,0) scale(2,1)'')] ''transform''
        = Some (joinWith '' '' (map renderToken [TranslateText ''10'' ''0'', ScaleText ''2'' ''1'']))"
    by simp
  have mb: "map_of [(''transform'', ''translate(5,0)''), (''d'', ''M 0 0 L 1 1'')] ''transform''
        = Some (joinWith '' '' (map renderToken [TranslateText ''5'' ''0'']))"
    by simp
  have fa: "foldl composeToken ?c0 (map tokenValue [TranslateText ''10'' ''0'', ScaleText ''2'' ''1'']) = ?c1"
    by (simp add: num_eval)
  have fb: "foldl composeToken ?c1 (map tokenValue [TranslateText ''5'' ''0'']) = ?c2"
    by (simp add: num_eval)
  have n: "normalizePathData ''M 0 0 L 1 1'' ?c2 5 = Inr ''M 20 0 L 22 1''"
    by (simp add: js_eval)
  note pa = transform_tokens_compose_left_to_right [OF a ma, where ctx = ?c0 and p = 5 and name = "''g''"
      and cs = "[?child]" and paths = "[]" and cname = "''path''"
      and cas = "[(''transform'', ''translate(5,0)''), (''d'', ''M 0 0 L 1 1'')]" and ccs = "[]" and rest = "[]"]
  note ch = transform_tokens_compose_left_to_right [OF b mb, where ctx = ?c1 and p = 5 and name = "''path''"
      and cs = "[]" and paths = "[]"]
  have p1: "extractPaths 5 (Node ''g'' [(''transform'', ''translate(10,0) scale(2,1)'')] [?child]) ?c0 []
              = extractPathsEach 5 [?child] ?c1 []"
    using pa unfolding fa by (simp del: extractPaths.simps extractPathsEach.simps)
  have p2: "extractPaths 5 ?child ?c1 [] = Inr [''M 20 0 L 22 1'']"
    using ch unfolding fb by (simp add: n del: extractPaths.simps)
  have p3: "extractPathsEach 5 [?child] ?c1 [] = Inr [''M 20 0 L 22 1'']"
    using pa p2 by (simp del: extractPaths.simps)
  have v: "visitNode 5 (Node ''g'' [(''transform'', ''translate(10,0) scale(2,1)'')] [?child]) ?c0 [] = Inr (?c1, [])"
    by (simp add: js_eval)
  show ?thesis
    using ma mb fa fb v p1 p3 n by (simp del: extractPaths.simps extractPathsEach.simps)
qed

section \<open>Path data as a list of commands\<close>

lemma joinWith_append:
  "xs \<noteq> [] \<Longrightarrow> ys \<noteq> [] \<Longrightarrow> joinWith sep (xs @ ys) = joinWith sep xs @ sep @ joinWith sep ys"
proof (induction xs)
  case Nil
  then show ?case by simp
next
  case (Cons x xs)
  show ?case
  proof (cases xs)
    case Nil
    with Cons.prems show ?thesis
      by (cases ys) auto
  next
    case (Cons x' xs')
    with Cons.IH Cons.prems show ?thesis
      by simp
  qed
qed

lemma pathText_Cons:
  "cs \<noteq> [] \<Longrightarrow> pathText (Command l args # cs)
     = joinWith '' '' ([l] # args @ [[]]) @ pathText cs"
proof -
  assume "cs \<noteq> []"
  then obtain c cs' where cs: "cs = c # cs'"
    by (cases cs) auto
  obtain l' args' where c: "c = Command l' args'"
    by (cases c) auto
  have ne: "concat (map commandTokens cs) \<noteq> []"
    by (simp add: cs c)
  have "pathText (Command l args # cs)
          = joinWith '' '' ([l] # args) @ '' '' @ joinWith '' '' (concat (map commandTokens cs))"
    using joinWith_append [of "[l] # args" "concat (map commandTokens cs)" "'' ''"] ne
    by (simp add: pathText_def)
  moreover have "joinWith '' '' ([l] # args @ [[]]) = joinWith '' '' ([l] # args) @ '' ''"
    using joinWith_append [of "[l] # args" "[[]]" "'' ''"] by simp
  ultimately show ?thesis
    by (simp add: pathText_def)
qed

lemma pathText_head:
  "cs \<noteq> [] \<Longrightarrow> \<exists>l args r. cs = Command l args # r \<and> (\<exists>t. pathText cs = l # t)"
proof -
  assume "cs \<noteq> []"
  then obtain c r where cs: "cs = c # r"
    by (cases cs) auto
  obtain l args where c: "c = Command l args"
    by (cases c) auto
  have "\<exists>t. joinWith '' '' ([l] # ys) = l # t" for ys
    by (cases ys) auto
  then show ?thesis
    by (auto simp: cs c pathText_def)
qed

lemma argText_tokens_letterfree:
  assumes "list_all argText args"
  shows "\<forall>c\<in>set (joinWith '' '' args). \<not> isLetter c"
  using assms
proof (induction args)
  case Nil
  show ?case by simp
next
  case (Cons a as)
  have sp: "\<not> isLetter (CHR '' '')"
    by (simp add: isLetter_def)
  from Cons show ?case
    by (cases as) (auto simp: argText_def list_all_iff sp)
qed

lemma argText_no_space: "argText a \<Longrightarrow> CHR '' '' \<notin> set a"
  by (auto simp: argText_def list_all_iff isSpace_def)

lemma jsMul_minus_one: "jsMul v (Fin (- 1)) = jsNeg v"
  by (cases v) simp_all

lemma splitOn_joinWith:
  assumes "\<forall>a\<in>set (x # xs). sep \<notin> set a"
  shows "splitOn sep (joinWith [sep] (x # xs)) = x # xs"
  using assms
proof (induction xs arbitrary: x)
  case Nil
  then show ?case by (simp add: splitOn_single)
next
  case (Cons y ys)
  have "splitOn sep (x @ sep # joinWith [sep] (y # ys)) = x # splitOn sep (joinWith [sep] (y # ys))"
    using Cons.prems by (intro splitOn_append) simp
  with Cons show ?case by simp
qed

lemma map_partStr_PStr: "map (partStr \<circ> PStr) xs = xs"
  by (induction xs) auto

lemma transformCommand_point:
  assumes "l = CHR ''M'' \<or> l = CHR ''L''" "\<forall>t\<in>set (x # y # rest). CHR '' '' \<notin> set t"
  shows "transformCommand ctx (joinWith '' '' ([l] # x # y # rest))
           = Inr (joinWith '' '' ([l] # rewritePoint ctx (x # y # rest)))"
proof -
  have s: "splitOn (CHR '' '') (joinWith '' '' ([l] # x # y # rest)) = [l] # x # y # rest"
    using assms by (intro splitOn_joinWith) auto
  obtain tx ty sx sy where c: "translate ctx = (tx, ty)" "scale ctx = (sx, sy)"
    by (metis surj_pair)
  show ?thesis
    unfolding transformCommand_def s using assms(1)
    by (auto simp: transformParts_def getAt_def setAt_def parseFloatAt_def c Let_def map_partStr_PStr)
qed

lemma transformCommand_arc:
  assumes "\<forall>t\<in>set (rx # ry # rot # largeArc # sweep # x # y # rest). CHR '' '' \<notin> set t"
  shows "transformCommand ctx (joinWith '' '' (''A'' # rx # ry # rot # largeArc # sweep # x # y # rest))
           = Inr (joinWith '' '' (''A'' # rewriteArc ctx (rx # ry # rot # largeArc # sweep # x # y # rest)))"
proof -
  have s: "splitOn (CHR '' '') (joinWith '' '' (''A'' # rx # ry # rot # largeArc # sweep # x # y # rest))
             = ''A'' # rx # ry # rot # largeArc # sweep # x # y # rest"
    using assms by (intro splitOn_joinWith) auto
  obtain tx ty sx sy where c: "translate ctx = (tx, ty)" "scale ctx = (sx, sy)"
    by (metis surj_pair)
  show ?thesis
    unfolding transformCommand_def s
    by (simp add: transformParts_def getAt_def setAt_def parseFloatAt_def c jsMul_minus_one Let_def map_partStr_PStr)
qed

lemma transformCommand_supported:
  assumes "supportedCommand (Command l args)" "\<forall>t\<in>set tail. CHR '' '' \<notin> set t"
  shows "transformCommand ctx (joinWith '' '' ([l] # args @ tail))
           = Inr (joinWith '' '' (commandTokens (rewriteCommand ctx (Command l args)) @ tail))"
proof (cases "l = CHR ''A''")
  case True
  with assms(1) have "7 \<le> length args"
    by simp
  then obtain rx ry rot largeArc sweep x y rest where
    a: "args = rx # ry # rot # largeArc # sweep # x # y # rest"
    by (auto simp: eval_nat_numeral Suc_le_length_iff)
  have "\<forall>t\<in>set (rx # ry # rot # largeArc # sweep # x # y # rest @ tail). CHR '' '' \<notin> set t"
    using assms a by (auto simp: list_all_iff dest: argText_no_space)
  from transformCommand_arc [OF this, of ctx] show ?thesis
    by (simp add: a True)
next
  case False
  with assms(1) have l: "l = CHR ''M'' \<or> l = CHR ''L''" and "2 \<le> length args"
    by simp_all
  then obtain x y rest where a: "args = x # y # rest"
    by (auto simp: eval_nat_numeral Suc_le_length_iff)
  have "\<forall>t\<in>set (x # y # rest @ tail). CHR '' '' \<notin> set t"
    using assms a by (auto simp: list_all_iff dest: argText_no_space)
  from transformCommand_point [OF l this, of ctx] show ?thesis
    by (simp add: a False)
qed

lemma applyCommands_last:
  assumes "isLetter l" "args \<noteq> []" "list_all argText args"
  shows "applyCommands ctx (joinWith '' '' ([l] # args)) = transformCommand ctx (joinWith '' '' ([l] # args))"
proof -
  from assms(2) obtain a as where a: "args = a # as"
    by (cases args) auto
  define J where "J = joinWith '' '' args"
  have j: "joinWith '' '' ([l] # args) = l # CHR '' '' # J"
    by (simp add: a J_def)
  have nl: "\<forall>c\<in>set (CHR '' '' # J). \<not> isLetter c"
    using argText_tokens_letterfree [OF assms(3)] by (simp add: J_def isLetter_def)
  then have t: "takeWhile (\<lambda>x. \<not> isLetter x) (CHR '' '' # J) = CHR '' '' # J"
    and d: "dropWhile (\<lambda>x. \<not> isLetter x) (CHR '' '' # J) = []"
    by (simp_all only: takeWhile_eq_all_conv dropWhile_eq_Nil_conv)
  have "applyCommands ctx (l # CHR '' '' # J) =
          (case transformCommand ctx (l # takeWhile (\<lambda>x. \<not> isLetter x) (CHR '' '' # J)) of
             Inl e \<Rightarrow> Inl e
           | Inr out \<Rightarrow>
               (case applyCommands ctx (dropWhile (\<lambda>x. \<not> isLetter x) (CHR '' '' # J)) of
                  Inl e \<Rightarrow> Inl e
                | Inr rest \<Rightarrow> Inr (out @ rest)))"
    using assms(1) by (simp add: isLetter_def)
  then show ?thesis
    unfolding j t d by (simp split: sum.splits)
qed

lemma applyCommands_next:
  assumes "isLetter l" "args \<noteq> []" "list_all argText args" "isLetter l'"
  shows "applyCommands ctx (joinWith '' '' ([l] # args @ [[]]) @ l' # t) =
           (case transformCommand ctx (joinWith '' '' ([l] # args @ [[]])) of
              Inl e \<Rightarrow> Inl e
            | Inr out \<Rightarrow>
                (case applyCommands ctx (l' # t) of
                   Inl e \<Rightarrow> Inl e
                 | Inr rest \<Rightarrow> Inr (out @ rest)))"
proof -
  define J where "J = joinWith '' '' args @ '' ''"
  have ja: "joinWith '' '' (args @ [[]]) = J"
    using joinWith_append [of args "[[]]" "'' ''"] assms(2) by (simp add: J_def)
  from assms(2) obtain a as where a: "args @ [[]] = a # as"
    by (cases args) auto
  have j: "joinWith '' '' ([l] # args @ [[]]) = l # CHR '' '' # J"
    using ja by (simp add: a)
  have nl: "\<forall>c\<in>set (CHR '' '' # J). \<not> isLetter c"
    using argText_tokens_letterfree [OF assms(3)] by (simp add: J_def isLetter_def)
  have t: "takeWhile (\<lambda>x. \<not> isLetter x) ((CHR '' '' # J) @ l' # t) = CHR '' '' # J"
    using nl assms(4) by (intro takeWhile_append2 [THEN trans]) auto
  have d: "dropWhile (\<lambda>x. \<not> isLetter x) ((CHR '' '' # J) @ l' # t) = l' # t"
    using nl assms(4) by (intro dropWhile_append2 [THEN trans]) auto
  have sp: "\<not> isLetter (CHR '' '')"
    by (simp add: isLetter_def)
  have step: "applyCommands ctx (l # CHR '' '' # r) =
          (case transformCommand ctx (l # takeWhile (\<lambda>x. \<not> isLetter x) (CHR '' '' # r)) of
             Inl e \<Rightarrow> Inl e
           | Inr out \<Rightarrow>
               (case applyCommands ctx (dropWhile (\<lambda>x. \<not> isLetter x) (CHR '' '' # r)) of
                  Inl e \<Rightarrow> Inl e
                | Inr rest \<Rightarrow> Inr (out @ rest)))" for r
    using assms(1) sp by (simp only: applyCommands.simps simp_thms if_True)
  show ?thesis
    unfolding j append_Cons step t [unfolded append_Cons] d [unfolded append_Cons] by (rule refl)
qed

lemma supportedCommand_letter:
  "supportedCommand (Command l args) \<Longrightarrow> isLetter l \<and> args \<noteq> [] \<and> list_all argText args"
  by (auto simp: isLetter_def split: if_splits)

lemma applyCommands_pathText:
  assumes "list_all supportedCommand cmds"
  shows "applyCommands ctx (pathText cmds) = Inr (pathText (map (rewriteCommand ctx) cmds))"
  using assms
proof (induction cmds)
  case Nil
  show ?case by (simp add: pathText_def)
next
  case (Cons c cs)
  obtain l args where c: "c = Command l args"
    by (cases c) auto
  from Cons.prems c have sc: "supportedCommand (Command l args)"
    by simp
  note la = supportedCommand_letter [OF sc]
  obtain args' where r: "rewriteCommand ctx (Command l args) = Command l args'"
    by simp
  show ?case
  proof (cases cs)
    case Nil
    have "applyCommands ctx (joinWith '' '' ([l] # args)) = Inr (joinWith '' '' ([l] # args'))"
      using applyCommands_last [of l args ctx] la
        transformCommand_supported [OF sc, of "[]" ctx] r by simp
    then show ?thesis
      by (simp add: Nil c r pathText_def del: rewriteCommand.simps)
  next
    case (Cons c' cs')
    then have ne: "cs \<noteq> []" "map (rewriteCommand ctx) cs \<noteq> []"
      by simp_all
    from pathText_head [OF ne(1)] obtain l' a' r' t where
      h: "cs = Command l' a' # r'" "pathText cs = l' # t"
      by blast
    from Cons.prems h(1) have "supportedCommand (Command l' a')"
      by simp
    then have l': "isLetter l'"
      using supportedCommand_letter by blast
    have ih: "applyCommands ctx (pathText cs) = Inr (pathText (map (rewriteCommand ctx) cs))"
      using Cons.prems by (intro Cons.IH) simp
    have tc: "transformCommand ctx (joinWith '' '' ([l] # args @ [[]]))
                = Inr (joinWith '' '' ([l] # args' @ [[]]))"
      using transformCommand_supported [OF sc, of "[[]]" ctx] r by simp
    have "applyCommands ctx (pathText (Command l args # cs))
            = applyCommands ctx (joinWith '' '' ([l] # args @ [[]]) @ l' # t)"
      by (simp only: pathText_Cons [OF ne(1)] h(2))
    also have "\<dots> = Inr (joinWith '' '' ([l] # args' @ [[]]) @ pathText (map (rewriteCommand ctx) cs))"
      using applyCommands_next [of l args l' ctx t] la l' tc ih h(2) by simp
    also have "joinWith '' '' ([l] # args' @ [[]]) @ pathText (map (rewriteCommand ctx) cs)
                 = pathText (Command l args' # map (rewriteCommand ctx) cs)"
      by (simp only: pathText_Cons [OF ne(2)])
    finally show ?thesis
      by (simp add: c r del: rewriteCommand.simps)
  qed
qed

section \<open>Arc commands\<close>

text \<open>
  Claim C3. In path data that the first two steps of the normalization bring to a
  sequence of supported commands, an arc command \<open>A rx ry rotation largeArc sweep x y\<close>,
  wherever it stands, is rewritten with \<open>rx\<close> and \<open>ry\<close> multiplied by the scale and
  the end point scaled and translated. When the product of the two scale factors is
  negative the rotation is negated and the sweep flag toggled (\<open>1\<close> gives \<open>0\<close>,
  anything else \<open>1\<close>); otherwise the texts of the rotation and of the sweep flag are
  kept. The large-arc flag is always kept. The output of the normalization is the
  precision limit applied to the text of the rewritten commands.
\<close>

theorem arc_command_rewritten:
  assumes "collapseSpaces (insertSpaces data)
             = pathText (pre @ Command (CHR ''A'') [rx, ry, rot, largeArc, sweep, x, y] # post)"
    and "list_all supportedCommand (pre @ Command (CHR ''A'') [rx, ry, rot, largeArc, sweep, x, y] # post)"
  shows "normalizePathData data \<lparr>translate = (tx, ty), scale = (sx, sy)\<rparr> p
         = limitPrecision p (pathText
             (map (rewriteCommand \<lparr>translate = (tx, ty), scale = (sx, sy)\<rparr>) pre
              @ Command (CHR ''A'')
                  [toString (jsMul (parseFloat rx) sx),
                   toString (jsMul (parseFloat ry) sy),
                   (if jsLess (jsMul sx sy) (Fin 0) then toString (jsNeg (parseFloat rot)) else rot),
                   largeArc,
                   (if jsLess (jsMul sx sy) (Fin 0) then (if parseFloat sweep = Fin 1 then ''0'' else ''1'') else sweep),
                   toString (jsAdd (jsMul (parseFloat x) sx) tx),
                   toString (jsAdd (jsMul (parseFloat y) sy) ty)]
              # map (rewriteCommand \<lparr>translate = (tx, ty), scale = (sx, sy)\<rparr>) post))"
proof -
  have "applyCommands \<lparr>translate = (tx, ty), scale = (sx, sy)\<rparr> (collapseSpaces (insertSpaces data))
          = Inr (pathText (map (rewriteCommand \<lparr>translate = (tx, ty), scale = (sx, sy)\<rparr>)
                   (pre @ Command (CHR ''A'') [rx, ry, rot, largeArc, sweep, x, y] # post)))"
    unfolding assms(1) using assms(2) by (rule applyCommands_pathText)
  then show ?thesis
    by (simp add: normalizePathData_def)
qed

theorem arc_command_rewritten_witness:
  "collapseSpaces (insertSpaces ''M 0 0A 3.1234567 4 30 0 1 5 6  L 1 1'')
     = pathText ([Command (CHR ''M'') [''0'', ''0'']]
                 @ Command (CHR ''A'') [''3.1234567'', ''4'', ''30'', ''0'', ''1'', ''5'', ''6'']
                 # [Command (CHR ''L'') [''1'', ''1'']])
   \<and> list_all supportedCommand
        ([Command (CHR ''M'') [''0'', ''0'']]
         @ Command (CHR ''A'') [''3.1234567'', ''4'', ''30'', ''0'', ''1'', ''5'', ''6'']
         # [Command (CHR ''L'') [''1'', ''1'']])
   \<and> normalizePathData ''M 0 0A 3.1234567 4 30 0 1 5 6  L 1 1''
        \<lparr>translate = (Fin 10, Fin 20), scale = (Fin (- 1), Fin 2)\<rparr> 5
        = Inr ''M 10 20 A -3.12346 8 -30 0 0 5 32 L 9 22''
   \<and> normalizePathData ''M 0 0A 3.1234567 4 30 0 1 5 6  L 1 1''
        \<lparr>translate = (Fin 10, Fin 20), scale = (Fin 1, Fin 2)\<rparr> 5
        = Inr ''M 10 20 A 3.12346 8 30 0 1 15 32 L 11 22''"
proof -
  let ?data = "''M 0 0A 3.1234567 4 30 0 1 5 6  L 1 1''"
  let ?cmds = "[Command (CHR ''M'') [''0'', ''0'']]
                 @ Command (CHR ''A'') [''3.1234567'', ''4'', ''30'', ''0'', ''1'', ''5'', ''6'']
                 # [Command (CHR ''L'') [''1'', ''1'']]"
  have a: "collapseSpaces (insertSpaces ?data) = pathText ?cmds"
    by (simp add: pathText_def isLetter_def isSpace_def)
  have b: "list_all supportedCommand ?cmds"
    by (simp add: argText_def isLetter_def isSpace_def)
  have t1: "pathText
             (map (rewriteCommand \<lparr>translate = (Fin 10, Fin 20), scale = (Fin (- 1), Fin 2)\<rparr>)
                [Command (CHR ''M'') [''0'', ''0'']]
              @ Command (CHR ''A'')
                  [toString (jsMul (parseFloat ''3.1234567'') (Fin (- 1))),
                   toString (jsMul (parseFloat ''4'') (Fin 2)),
                   (if jsLess (jsMul (Fin (- 1)) (Fin 2)) (Fin 0) then toString (jsNeg (parseFloat ''30'')) else ''30''),
                   ''0'',
                   (if jsLess (jsMul (Fin (- 1)) (Fin 2)) (Fin 0)
                    then (if parseFloat ''1'' = Fin 1 then ''0'' else ''1'') else ''1''),
                   toString (jsAdd (jsMul (parseFloat ''5'') (Fin (- 1))) (Fin 10)),
                   toString (jsAdd (jsMul (parseFloat ''6'') (Fin 2)) (Fin 20))]
              # map (rewriteCommand \<lparr>translate = (Fin 10, Fin 20), scale = (Fin (- 1), Fin 2)\<rparr>)
                  [Command (CHR ''L'') [''1'', ''1'']])
            = ''M 10 20 A -3.1234567 8 -30 0 0 5 32 L 9 22''"
    by (simp add: pathText_def num_eval)
  have t2: "pathText
             (map (rewriteCommand \<lparr>translate = (Fin 10, Fin 20), scale = (Fin 1, Fin 2)\<rparr>)
                [Command (CHR ''M'') [''0'', ''0'']]
              @ Command (CHR ''A'')
                  [toString (jsMul (parseFloat ''3.1234567'') (Fin 1)),
                   toString (jsMul (parseFloat ''4'') (Fin 2)),
                   (if jsLess (jsMul (Fin 1) (Fin 2)) (Fin 0) then toString (jsNeg (parseFloat ''30'')) else ''30''),
                   ''0'',
                   (if jsLess (jsMul (Fin 1) (Fin 2)) (Fin 0)
                    then (if parseFloat ''1'' = Fin 1 then ''0'' else ''1'') else ''1''),
                   toString (jsAdd (jsMul (parseFloat ''5'') (Fin 1)) (Fin 10)),
                   toString (jsAdd (jsMul (parseFloat ''6'') (Fin 2)) (Fin 20))]
              # map (rewriteCommand \<lparr>translate = (Fin 10, Fin 20), scale = (Fin 1, Fin 2)\<rparr>)
                  [Command (CHR ''L'') [''1'', ''1'']])
            = ''M 10 20 A 3.1234567 8 30 0 1 15 32 L 11 22''"
    by (simp add: pathText_def num_eval)
  have l1: "limitPrecision 5 ''M 10 20 A -3.1234567 8 -30 0 0 5 32 L 9 22''
              = Inr ''M 10 20 A -3.12346 8 -30 0 0 5 32 L 9 22''"
    by (simp add: js_eval)
  have l2: "limitPrecision 5 ''M 10 20 A 3.1234567 8 30 0 1 15 32 L 11 22''
              = Inr ''M 10 20 A 3.12346 8 30 0 1 15 32 L 11 22''"
    by (simp add: js_eval)
  show ?thesis
    using arc_command_rewritten [OF a b, of "Fin 10" "Fin 20" "Fin (- 1)" "Fin 2" 5]
      arc_command_rewritten [OF a b, of "Fin 10" "Fin 20" "Fin 1" "Fin 2" 5]
      a b
    unfolding t1 t2 l1 l2 by simp
qed

section \<open>The output document\<close>

lemma extractPaths_in_order:
  "extractPaths p n ctx paths = Inr r \<Longrightarrow> r = paths @ pathsInOrder p n ctx"
  "extractPathsEach p cs ctx paths = Inr r \<Longrightarrow> r = paths @ concat (map (\<lambda>c. pathsInOrder p c ctx) cs)"
proof (induction p n ctx paths and p cs ctx paths arbitrary: r and r
       rule: extractPaths_extractPathsEach.induct)
  case (1 precision name as cs ctx paths)
  from "1.prems" obtain ctx' paths' where
    v: "visitNode precision (Node name as cs) ctx paths = Inr (ctx', paths')"
    and e: "extractPathsEach precision cs ctx' paths' = Inr r"
    by (auto split: sum.splits)
  from v have c: "ctx' = contextAfter (Node name as cs) ctx"
    and o: "paths' = paths @ ownPath precision (Node name as cs) ctx'"
    by (auto simp: visitNode_def contextAfter_def ownPath_def split: if_splits sum.splits option.splits)
  from "1.IH" [OF v refl e] have "r = paths' @ concat (map (\<lambda>c. pathsInOrder precision c ctx') cs)" .
  with c o show ?case by simp
next
  case (2 precision ctx paths)
  then show ?case by simp
next
  case (3 precision c cs ctx paths)
  from "3.prems" obtain paths' where
    h: "extractPaths precision c ctx paths = Inr paths'"
    and t: "extractPathsEach precision cs ctx paths' = Inr r"
    by (auto split: sum.splits)
  from "3.IH"(1) [OF h] "3.IH"(2) [OF h t] show ?case by simp
qed

text \<open>
  Claim C8. The output of a successful conversion is the one \<open>svg\<close> element with the
  namespace, version \<open>1.1\<close> and the frame \<open>0 0 width height\<close> of the derived width and
  height, holding one \<open>path\<close> element; its data are the normalized path strings in the
  order of the traversal, joined by spaces, and its \<open>fill\<close> and \<open>fill-rule\<close> are the
  options, or \<open>currentColor\<close> and \<open>evenodd\<close>.
\<close>

theorem output_document:
  assumes \<open>sketchToIcon opts = Inr out\<close>
  shows \<open>\<exists>rootNode viewBoxStr x y w h.
           findRoot (input opts) = Some rootNode
         \<and> getAttrValue rootNode ''viewBox'' = Some viewBoxStr
         \<and> resolveViewBox viewBoxStr
              (case exportedPaddingFactor opts of None \<Rightarrow> Fin (1 / 100) | Some f \<Rightarrow> f) = Inr (x, y, w, h)
         \<and> out = ''<svg xmlns="http://www.w3.org/2000/svg" version="1.1" viewBox="0 0 '' @ toString w @ '' ''
               @ toString h @ ''"><path d="''
               @ joinWith '' '' (pathsInOrder (case precision opts of None \<Rightarrow> 5 | Some p \<Rightarrow> p) rootNode
                                   \<lparr>translate = (x, y), scale = (Fin 1, Fin 1)\<rparr>)
               @ ''" fill="'' @ (case fill opts of None \<Rightarrow> ''currentColor'' | Some f \<Rightarrow> f)
               @ ''" fill-rule="'' @ (case fillRule opts of None \<Rightarrow> ''evenodd'' | Some r \<Rightarrow> r)
               @ ''" /></svg>''\<close>
proof -
  from assms obtain rootNode viewBoxStr x y w h paths where
    r: "findRoot (input opts) = Some rootNode"
    and v: "getAttrValue rootNode ''viewBox'' = Some viewBoxStr"
    and b: "resolveViewBox viewBoxStr
              (case exportedPaddingFactor opts of None \<Rightarrow> Fin (1 / 100) | Some f \<Rightarrow> f) = Inr (x, y, w, h)"
    and e: "extractPaths (case precision opts of None \<Rightarrow> 5 | Some p \<Rightarrow> p) rootNode
              \<lparr>translate = (x, y), scale = (Fin 1, Fin 1)\<rparr> [] = Inr paths"
    and out: "out = document w h paths
                (case fill opts of None \<Rightarrow> ''currentColor'' | Some f \<Rightarrow> f)
                (case fillRule opts of None \<Rightarrow> ''evenodd'' | Some r \<Rightarrow> r)"
    by (auto simp: sketchToIcon_def Let_def split: option.splits if_splits sum.splits)
  from extractPaths_in_order(1) [OF e]
  have "paths = pathsInOrder (case precision opts of None \<Rightarrow> 5 | Some p \<Rightarrow> p) rootNode
                  \<lparr>translate = (x, y), scale = (Fin 1, Fin 1)\<rparr>"
    by simp
  with r v b out show ?thesis
    by (simp add: document_def)
qed

theorem output_document_witness:
  \<open>sketchToIcon
     \<lparr>input = Node ''#document-fragment'' []
        [Node ''svg'' [(''viewBox'', ''0 0 102 102'')]
           [Node ''g'' [(''transform'', ''translate(1,1) scale(2,2)'')]
              [Node ''path'' [(''d'', ''M 1 1 L 50 50'')] [], Node ''path'' [(''d'', ''M 0 0'')] []],
            Node ''path'' [(''d'', ''M 2 2'')] []]],
      exportedPaddingFactor = None, fill = Some ''red'', fillRule = None, precision = None\<rparr>
   = Inr ''<svg xmlns="http://www.w3.org/2000/svg" version="1.1" viewBox="0 0 100 100"><path d="M 2 2 L 100 100 M 0 0 M 1 1" fill="red" fill-rule="evenodd" /></svg>''
   \<and> pathsInOrder 5 (Node ''svg'' [(''viewBox'', ''0 0 102 102'')]
           [Node ''g'' [(''transform'', ''translate(1,1) scale(2,2)'')]
              [Node ''path'' [(''d'', ''M 1 1 L 50 50'')] [], Node ''path'' [(''d'', ''M 0 0'')] []],
            Node ''path'' [(''d'', ''M 2 2'')] []])
        \<lparr>translate = (Fin (- 1), Fin (- 1)), scale = (Fin 1, Fin 1)\<rparr>
      = [''M 2 2 L 100 100'', ''M 0 0'', ''M 1 1'']\<close>
proof -
  let ?opts = \<open>\<lparr>input = Node ''#document-fragment'' []
        [Node ''svg'' [(''viewBox'', ''0 0 102 102'')]
           [Node ''g'' [(''transform'', ''translate(1,1) scale(2,2)'')]
              [Node ''path'' [(''d'', ''M 1 1 L 50 50'')] [], Node ''path'' [(''d'', ''M 0 0'')] []],
            Node ''path'' [(''d'', ''M 2 2'')] []]],
      exportedPaddingFactor = None, fill = Some ''red'', fillRule = None, precision = None\<rparr>\<close>
  have s: \<open>sketchToIcon ?opts
    = Inr ''<svg xmlns="http://www.w3.org/2000/svg" version="1.1" viewBox="0 0 100 100"><path d="M 2 2 L 100 100 M 0 0 M 1 1" fill="red" fill-rule="evenodd" /></svg>''\<close>
    by (simp add: js_eval)
  show ?thesis
    using output_document [OF s] s
    by (simp add: js_eval contextAfter_def ownPath_def)
qed

section \<open>Unsupported input\<close>

lemma applyTransform_error:
  "applyTransform ctx name args = Inl e \<Longrightarrow> transformError e"
  by (auto simp: applyTransform_def Let_def split: if_splits)

lemma applyTransform_unknown:
  "name \<noteq> ''translate'' \<Longrightarrow> name \<noteq> ''scale'' \<Longrightarrow> applyTransform ctx name args = Inl (UnsupportedTransform name)"
  by (simp add: applyTransform_def)

lemma applyTransforms_error:
  "applyTransforms t ctx = Inl e \<Longrightarrow> transformError e"
proof (induction t ctx rule: applyTransforms.induct)
  case (1 transform ctx)
  show ?case
  proof (cases "tfrxExec transform")
    case None
    with "1.prems" show ?thesis
      by (simp add: applyTransforms.simps [of transform])
  next
    case (Some m)
    obtain name args after where m: "m = (name, args, after)"
      by (cases m) auto
    show ?thesis
    proof (cases "applyTransform ctx name args")
      case (Inl e')
      with "1.prems" Some m have "e = e'"
        by (simp add: applyTransforms.simps [of transform])
      with Inl show ?thesis
        by (simp add: applyTransform_error)
    next
      case (Inr ctx')
      with "1.prems" Some m have "applyTransforms after ctx' = Inl e"
        by (simp add: applyTransforms.simps [of transform])
      with "1.IH" [OF Some [unfolded m] refl refl Inr] show ?thesis
        by simp
    qed
  qed
qed

lemma applyTransforms_rotate:
  "''rotate'' \<in> set (tfrxNames t) \<Longrightarrow> \<exists>e. applyTransforms t ctx = Inl e \<and> transformError e"
proof (induction t ctx rule: applyTransforms.induct)
  case (1 transform ctx)
  show ?case
  proof (cases "tfrxExec transform")
    case None
    with "1.prems" show ?thesis
      by (simp add: tfrxNames.simps [of transform])
  next
    case (Some m)
    obtain name args after where m: "m = (name, args, after)"
      by (cases m) auto
    from "1.prems" Some m have n: "name = ''rotate'' \<or> ''rotate'' \<in> set (tfrxNames after)"
      by (auto simp: tfrxNames.simps [of transform])
    show ?thesis
    proof (cases "applyTransform ctx name args")
      case (Inl e)
      with Some m applyTransform_error [OF Inl] show ?thesis
        by (simp add: applyTransforms.simps [of transform])
    next
      case (Inr ctx')
      with n have "''rotate'' \<in> set (tfrxNames after)"
        by (auto simp: applyTransform_unknown)
      from "1.IH" [OF Some [unfolded m] refl refl Inr this] Some m Inr show ?thesis
        by (simp add: applyTransforms.simps [of transform])
    qed
  qed
qed

lemma applyTransforms_first_rotate:
  "tfrxExec t = Some (''rotate'', args, after) \<Longrightarrow> applyTransforms t ctx = Inl (UnsupportedTransform ''rotate'')"
  by (simp add: applyTransforms.simps [of t] applyTransform_unknown)
lemma letter_not_space: "isLetter c \<Longrightarrow> \<not> isSpace c"
  by (auto simp: isLetter_def isSpace_def Let_def)

lemma hasCommand_insertSpaces:
  "isLetter l \<Longrightarrow> hasCommand l s \<Longrightarrow> hasCommand l (insertSpaces s)"
proof (induction s rule: insertSpaces.induct)
  case (1 c d r)
  show ?case
  proof (cases "c = l \<and> \<not> isLetter d")
    case True
    with "1.prems" show ?thesis
      by (cases r) auto
  next
    case False
    with "1.prems" have h: "hasCommand l (d # r)" by simp
    show ?thesis
    proof (cases "\<not> isLetter c \<and> isLetter d")
      case True
      from h True obtain e r' where r: "r = e # r'"
        by (cases r) auto
      from h True r have "hasCommand l r \<or> (d = l \<and> \<not> isLetter e)"
        by auto
      then show ?thesis
      proof
        assume "hasCommand l r"
        with True "1.IH"(1) "1.prems"(1) have "hasCommand l (insertSpaces r)" by simp
        with True show ?thesis
          by (cases "insertSpaces r") auto
      next
        assume de: "d = l \<and> \<not> isLetter e"
        have "\<exists>t. insertSpaces (e # r') = e # t"
          by (cases r') auto
        with True de r show ?thesis by auto
      qed
    next
      case False
      with "1.IH"(2) "1.prems"(1) h have "hasCommand l (insertSpaces (d # r))" by simp
      with False show ?thesis
        by (cases "insertSpaces (d # r)") auto
    qed
  qed
qed simp_all

lemma collapseSpaces_head:
  "\<not> isLetter x \<Longrightarrow> \<exists>y t. collapseSpaces (x # r) = y # t \<and> \<not> isLetter y"
  by (cases r) (auto simp: isLetter_def)

lemma hasCommand_collapseSpaces:
  "isLetter l \<Longrightarrow> hasCommand l s \<Longrightarrow> hasCommand l (collapseSpaces s)"
proof (induction s rule: collapseSpaces.induct)
  case (1 c d r)
  show ?case
  proof (cases "c = l \<and> \<not> isLetter d")
    case True
    with collapseSpaces_head [of d r] obtain y t where "collapseSpaces (d # r) = y # t" "\<not> isLetter y"
      by blast
    with True "1.prems"(1) show ?thesis
      by (auto dest: letter_not_space)
  next
    case False
    with "1.prems" have h: "hasCommand l (d # r)" by simp
    show ?thesis
    proof (cases "isSpace c \<and> isSpace d")
      case True
      have nl: "\<not> isLetter x" if "isSpace x" for x
        using that letter_not_space by blast
      have drop: "hasCommand l (y # u) \<Longrightarrow> isSpace y \<Longrightarrow> hasCommand l (dropWhile isSpace (y # u))" for y u
      proof (induction u arbitrary: y)
        case Nil
        then show ?case by simp
      next
        case (Cons z u)
        from Cons.prems "1.prems"(1) have "y \<noteq> l"
          using letter_not_space by blast
        with Cons.prems have hz: "hasCommand l (z # u)" by simp
        show ?case
        proof (cases "isSpace z")
          case True
          with Cons.IH [OF hz] Cons.prems(2) show ?thesis by simp
        next
          case False
          with hz Cons.prems(2) show ?thesis by simp
        qed
      qed
      from h True drop [of d r] have "hasCommand l (dropWhile isSpace r)"
        by simp
      with True "1.IH"(1) "1.prems"(1) have "hasCommand l (collapseSpaces (dropWhile isSpace r))"
        by simp
      with True show ?thesis
        by (cases "collapseSpaces (dropWhile isSpace r)") auto
    next
      case False
      with "1.IH"(2) "1.prems"(1) h have "hasCommand l (collapseSpaces (d # r))" by simp
      with False show ?thesis
        by (cases "collapseSpaces (d # r)") auto
    qed
  qed
qed simp_all

lemma splitOn_first:
  "c \<noteq> sep \<Longrightarrow> \<exists>p ps. splitOn sep (c # s) = (c # p) # ps"
  by (cases "splitOn sep s") auto

lemma transformCommand_error:
  "transformCommand ctx cmd = Inl e \<Longrightarrow> \<exists>u. e = UnsupportedPathCommand u"
  by (auto simp: transformCommand_def transformParts_def Let_def split: sum.splits if_splits prod.splits)

lemma transformCommand_unknown:
  assumes "c \<noteq> CHR ''M''" "c \<noteq> CHR ''L''" "c \<noteq> CHR ''A''" "c \<noteq> CHR '' ''"
  shows "\<exists>u. transformCommand ctx (c # s) = Inl (UnsupportedPathCommand u)"
proof -
  from splitOn_first [OF assms(4), of s] obtain p ps where "splitOn (CHR '' '') (c # s) = (c # p) # ps"
    by blast
  with assms(1-3) show ?thesis
    by (simp add: transformCommand_def transformParts_def getAt_def Let_def split: prod.splits)
qed

lemma applyCommands_error:
  "applyCommands ctx s = Inl e \<Longrightarrow> \<exists>u. e = UnsupportedPathCommand u"
proof (induction ctx s arbitrary: e rule: applyCommands.induct)
  case (3 ctx c d r)
  show ?case
  proof (cases "isLetter c \<and> \<not> isLetter d")
    case True
    show ?thesis
    proof (cases "transformCommand ctx (c # takeWhile (\<lambda>x. \<not> isLetter x) (d # r))")
      case (Inl e')
      with "3.prems" True have "e = e'" by simp
      with transformCommand_error [OF Inl] show ?thesis by simp
    next
      case (Inr out)
      with "3.prems" True have "applyCommands ctx (dropWhile (\<lambda>x. \<not> isLetter x) (d # r)) = Inl e"
        by (simp split: sum.splits)
      from "3.IH"(1) [OF True Inr this] show ?thesis .
    qed
  next
    case False
    with "3.prems" have "applyCommands ctx (d # r) = Inl e"
      by (auto split: sum.splits)
    from "3.IH"(2) [OF False this] show ?thesis .
  qed
qed simp_all

lemma hasCommand_dropWhile:
  "isLetter l \<Longrightarrow> hasCommand l s \<Longrightarrow> hasCommand l (dropWhile (\<lambda>x. \<not> isLetter x) s)"
proof (induction s rule: hasCommand.induct)
  case (1 l c d r)
  then show ?case by (cases "isLetter c") auto
qed simp_all

lemma applyCommands_unknown:
  assumes "isLetter l" "l \<noteq> CHR ''M''" "l \<noteq> CHR ''L''" "l \<noteq> CHR ''A''"
  shows "hasCommand l s \<Longrightarrow> \<exists>u. applyCommands ctx s = Inl (UnsupportedPathCommand u)"
proof (induction ctx s rule: applyCommands.induct)
  case (3 ctx c d r)
  have sp: "l \<noteq> CHR '' ''"
    using assms(1) by (auto simp: isLetter_def)
  show ?case
  proof (cases "isLetter c \<and> \<not> isLetter d")
    case True
    show ?thesis
    proof (cases "transformCommand ctx (c # takeWhile (\<lambda>x. \<not> isLetter x) (d # r))")
      case (Inl e)
      with transformCommand_error [OF Inl] True show ?thesis by auto
    next
      case (Inr out)
      with transformCommand_unknown [OF assms(2-4) sp, of ctx "takeWhile (\<lambda>x. \<not> isLetter x) (d # r)"]
      have "c \<noteq> l" by auto
      with "3.prems" have "hasCommand l (d # r)" by simp
      with hasCommand_dropWhile [OF assms(1)] have "hasCommand l (dropWhile (\<lambda>x. \<not> isLetter x) (d # r))"
        by blast
      from "3.IH"(1) [OF True Inr this] True Inr show ?thesis by auto
    qed
  next
    case False
    with "3.prems" assms(1) have "hasCommand l (d # r)" by auto
    from "3.IH"(2) [OF False this] False show ?thesis by auto
  qed
qed simp_all

lemma normalizePathData_unknown:
  assumes "isLetter l" "l \<noteq> CHR ''M''" "l \<noteq> CHR ''L''" "l \<noteq> CHR ''A''" "hasCommand l data"
  shows "\<exists>u. normalizePathData data ctx p = Inl (UnsupportedPathCommand u)"
proof -
  have "hasCommand l (collapseSpaces (insertSpaces data))"
    using assms(1,5) by (intro hasCommand_collapseSpaces hasCommand_insertSpaces)
  from applyCommands_unknown [OF assms(1-4) this, of ctx] show ?thesis
    by (auto simp: normalizePathData_def)
qed

lemma hasCommand_nonempty: "hasCommand l data \<Longrightarrow> data \<noteq> []"
  by auto

lemma visitNode_unsupported:
  assumes "unsupportedNode n"
  shows "\<exists>e. visitNode p n ctx paths = Inl e"
proof (cases "visitNode p n ctx paths")
  case (Inl e)
  then show ?thesis by simp
next
  case (Inr res)
  let ?t = "case getAttrValue n ''transform'' of None \<Rightarrow> ''undefined'' | Some t \<Rightarrow> t"
  from Inr obtain ctx' where a: "applyTransforms ?t ctx = Inr ctx'"
    and k: "nodeName n \<notin> {''rect'', ''circle'', ''ellipse'', ''line'', ''polyline''}"
    by (auto simp: visitNode_def split: if_splits sum.splits)
  from a applyTransforms_rotate [of ?t ctx] have nr: "''rotate'' \<notin> set (tfrxNames ?t)"
    by auto
  with assms k obtain data where d: "nodeName n = ''path''" "getAttrValue n ''d'' = Some data"
    "hasCommand (CHR ''C'') data"
    by (auto simp: unsupportedNode_def split: option.splits)
  have "\<exists>u. normalizePathData data ctx' p = Inl (UnsupportedPathCommand u)"
    using d(3) by (intro normalizePathData_unknown [of "CHR ''C''"]) (simp_all add: isLetter_def)
  with Inr a k d hasCommand_nonempty [OF d(3)] show ?thesis
    by (auto simp: visitNode_def split: if_splits)
qed

lemma extractPaths_fails:
  "n \<in> set (subnodes r) \<Longrightarrow> unsupportedNode n \<Longrightarrow> \<exists>e. extractPaths p r ctx paths = Inl e"
  "n \<in> set (concat (map subnodes cs)) \<Longrightarrow> unsupportedNode n \<Longrightarrow> \<exists>e. extractPathsEach p cs ctx paths = Inl e"
proof (induction p r ctx paths and p cs ctx paths rule: extractPaths_extractPathsEach.induct)
  case (1 precision name as cs ctx paths)
  show ?case
  proof (cases "visitNode precision (Node name as cs) ctx paths")
    case (Inl e)
    then show ?thesis by simp
  next
    case (Inr res)
    obtain ctx' paths' where res: "res = (ctx', paths')"
      by (cases res) auto
    from Inr visitNode_unsupported [of "Node name as cs" precision ctx paths]
    have "\<not> unsupportedNode (Node name as cs)" by auto
    with "1.prems" have "n \<in> set (concat (map subnodes cs))" by auto
    from "1.IH" [OF Inr [unfolded res] refl this "1.prems"(2)] Inr res show ?thesis by simp
  qed
next
  case (2 precision ctx paths)
  then show ?case by simp
next
  case (3 precision c cs ctx paths)
  show ?case
  proof (cases "extractPaths precision c ctx paths")
    case (Inl e)
    then show ?thesis by simp
  next
    case (Inr paths')
    with "3.IH"(1) "3.prems"(2) have "n \<notin> set (subnodes c)" by auto
    with "3.prems" have "n \<in> set (concat (map subnodes cs))" by auto
    from "3.IH"(2) [OF Inr this "3.prems"(2)] Inr show ?thesis by simp
  qed
qed
text \<open>
  Claim C5, as stated: every rejected shape anywhere in the tree makes the conversion
  fail with the error of an unsupported element. A \<open>rect\<close> beside the \<open>svg\<close> root
  is never visited and the conversion succeeds; a \<open>rect\<close> that follows a node with a
  \<open>rotate\<close> token is never reached, and the error is that of the transform.
\<close>

theorem rect_outside_root_or_after_rotate:
  \<open>sketchToIcon
     \<lparr>input = Node ''#document-fragment'' []
        [Node ''rect'' [] [], Node ''svg'' [(''viewBox'', ''0 0 10 10'')] []],
      exportedPaddingFactor = Some (Fin 0), fill = None, fillRule = None, precision = None\<rparr>
     = Inr ''<svg xmlns="http://www.w3.org/2000/svg" version="1.1" viewBox="0 0 10 10"><path d="" fill="currentColor" fill-rule="evenodd" /></svg>''
   \<and> sketchToIcon
     \<lparr>input = Node ''#document-fragment'' []
        [Node ''svg'' [(''viewBox'', ''0 0 10 10'')]
           [Node ''g'' [(''transform'', ''rotate(45)'')] [], Node ''rect'' [] []]],
      exportedPaddingFactor = Some (Fin 0), fill = None, fillRule = None, precision = None\<rparr>
     = Inl (UnsupportedTransform ''rotate'')\<close>
  by (simp add: js_eval)

text \<open>
  Claim C5, amended. The conversion fails with the error of a missing view box when
  the root has no \<open>viewBox\<close> attribute. It fails, with the error of the first check
  that fails in the order of the traversal, when the subtree of the root holds a
  rejected shape, a node whose \<open>transform\<close> attribute has a token named \<open>rotate\<close>, or
  a path whose data have the letter \<open>C\<close> directly followed by a non-letter. At the
  node itself: a rejected shape whose \<open>style\<close> and \<open>transform\<close> pass raises the error of
  an unsupported element with its name; a \<open>transform\<close> attribute with a \<open>rotate\<close>
  token raises one of the two errors of the transform loop, and that of the
  unsupported command \<open>rotate\<close> when the token is the first; path data with a \<open>C\<close>
  command raise the error of an unsupported path command.
\<close>

theorem unsupported_input_fails:
  "(findRoot (input opts) = Some rootNode \<longrightarrow> getAttrValue rootNode ''viewBox'' = None
      \<longrightarrow> sketchToIcon opts = Inl MissingViewBox)
   \<and> (findRoot (input opts) = Some rootNode \<longrightarrow> n \<in> set (subnodes rootNode) \<longrightarrow> unsupportedNode n
      \<longrightarrow> (\<exists>e. sketchToIcon opts = Inl e))
   \<and> (nodeName m \<in> {''rect'', ''circle'', ''ellipse'', ''line'', ''polyline''}
      \<longrightarrow> (case getAttrValue m ''style'' of None \<Rightarrow> True | Some style \<Rightarrow> \<not> includesStr style ''transform'')
      \<longrightarrow> applyTransforms (case getAttrValue m ''transform'' of None \<Rightarrow> ''undefined'' | Some t \<Rightarrow> t) ctx = Inr ctx'
      \<longrightarrow> visitNode p m ctx paths = Inl (UnsupportedElement (nodeName m)))
   \<and> (''rotate'' \<in> set (tfrxNames t) \<longrightarrow> (\<exists>e. applyTransforms t ctx = Inl e \<and> transformError e))
   \<and> (tfrxExec t = Some (''rotate'', args, after) \<longrightarrow> applyTransforms t ctx = Inl (UnsupportedTransform ''rotate''))
   \<and> (hasCommand (CHR ''C'') data \<longrightarrow> (\<exists>u. normalizePathData data ctx p = Inl (UnsupportedPathCommand u)))"
proof (intro conjI impI)
  assume "findRoot (input opts) = Some rootNode" "getAttrValue rootNode ''viewBox'' = None"
  then show "sketchToIcon opts = Inl MissingViewBox"
    by (simp add: sketchToIcon_def)
next
  assume r: "findRoot (input opts) = Some rootNode" and n: "n \<in> set (subnodes rootNode)" "unsupportedNode n"
  have f: "extractPaths q rootNode c [] \<noteq> Inr ps" for q c ps
    using extractPaths_fails(1) [OF n, of q c "[]"] by auto
  show "\<exists>e. sketchToIcon opts = Inl e"
    using r by (simp add: sketchToIcon_def Let_def f split: option.splits sum.splits prod.splits)
next
  assume "nodeName m \<in> {''rect'', ''circle'', ''ellipse'', ''line'', ''polyline''}"
    "case getAttrValue m ''style'' of None \<Rightarrow> True | Some style \<Rightarrow> \<not> includesStr style ''transform''"
    "applyTransforms (case getAttrValue m ''transform'' of None \<Rightarrow> ''undefined'' | Some t \<Rightarrow> t) ctx = Inr ctx'"
  then show "visitNode p m ctx paths = Inl (UnsupportedElement (nodeName m))"
    by (auto simp: visitNode_def split: option.splits)
next
  assume "''rotate'' \<in> set (tfrxNames t)"
  then show "\<exists>e. applyTransforms t ctx = Inl e \<and> transformError e"
    by (rule applyTransforms_rotate)
next
  assume "tfrxExec t = Some (''rotate'', args, after)"
  then show "applyTransforms t ctx = Inl (UnsupportedTransform ''rotate'')"
    by (rule applyTransforms_first_rotate)
next
  assume "hasCommand (CHR ''C'') data"
  then show "\<exists>u. normalizePathData data ctx p = Inl (UnsupportedPathCommand u)"
    by (intro normalizePathData_unknown [of "CHR ''C''"]) (simp_all add: isLetter_def)
qed

theorem unsupported_input_fails_witness:
  "findRoot (Node ''#document-fragment'' [] [Node ''svg'' [] [Node ''g'' [] [Node ''circle'' [] []]]])
     = Some (Node ''svg'' [] [Node ''g'' [] [Node ''circle'' [] []]])
   \<and> getAttrValue (Node ''svg'' [] [Node ''g'' [] [Node ''circle'' [] []]]) ''viewBox'' = None
   \<and> sketchToIcon \<lparr>input = Node ''#document-fragment'' [] [Node ''svg'' [] [Node ''g'' [] [Node ''circle'' [] []]]],
        exportedPaddingFactor = None, fill = None, fillRule = None, precision = None\<rparr> = Inl MissingViewBox
   \<and> Node ''circle'' [] [] \<in> set (subnodes (Node ''svg'' [] [Node ''g'' [] [Node ''circle'' [] []]]))
   \<and> unsupportedNode (Node ''circle'' [] [])
   \<and> visitNode 5 (Node ''circle'' [] []) \<lparr>translate = (Fin 0, Fin 0), scale = (Fin 1, Fin 1)\<rparr> []
        = Inl (UnsupportedElement ''circle'')
   \<and> ''rotate'' \<in> set (tfrxNames ''scale(2,2) rotate(45)'')
   \<and> applyTransforms ''scale(2,2) rotate(45)'' \<lparr>translate = (Fin 0, Fin 0), scale = (Fin 1, Fin 1)\<rparr>
        = Inl (UnsupportedTransform ''rotate'')
   \<and> tfrxExec ''rotate(45) scale(2,2)'' = Some (''rotate'', ''45'', '' scale(2,2)'')
   \<and> applyTransforms ''rotate(45) scale(2,2)'' \<lparr>translate = (Fin 0, Fin 0), scale = (Fin 1, Fin 1)\<rparr>
        = Inl (UnsupportedTransform ''rotate'')
   \<and> hasCommand (CHR ''C'') ''M 0 0 C 1 1 2 2 3 3''
   \<and> normalizePathData ''M 0 0 C 1 1 2 2 3 3'' \<lparr>translate = (Fin 0, Fin 0), scale = (Fin 1, Fin 1)\<rparr> 5
        = Inl (UnsupportedPathCommand ''C'')"
  using unsupported_input_fails [of
      "\<lparr>input = Node ''#document-fragment'' [] [Node ''svg'' [] [Node ''g'' [] [Node ''circle'' [] []]]],
        exportedPaddingFactor = None, fill = None, fillRule = None, precision = None\<rparr>"
      "Node ''svg'' [] [Node ''g'' [] [Node ''circle'' [] []]]" "Node ''circle'' [] []" "Node ''circle'' [] []"
      "\<lparr>translate = (Fin 0, Fin 0), scale = (Fin 1, Fin 1)\<rparr>"
      "\<lparr>translate = (Fin 0, Fin 0), scale = (Fin 1, Fin 1)\<rparr>" 5 "[]" "''scale(2,2) rotate(45)''"
      "''45''" "'' scale(2,2)''" "''M 0 0 C 1 1 2 2 3 3''"]
  by (simp add: js_eval unsupportedNode_def tfrxNames.simps)

section \<open>The precision limit\<close>

text \<open>
  Claim C4. Every decimal number of the rewritten string should come out of the
  precision limit with at most \<open>precision\<close> fractional digits and never in scientific
  notation. The coordinate \<open>0.00000015\<close> is written as \<open>1.5e-7\<close> by the rewrite of
  the command; the pattern of the limit needs digits on both sides of a point and
  nothing after them, so it matches \<open>1.5\<close> alone and leaves the exponent: with the
  default precision \<open>5\<close> the output keeps the number \<open>1.5e-7\<close>, with eight fractional
  digits and in scientific notation, where the limit of five digits gives \<open>0\<close>.
  The same rendering shows with precision \<open>7\<close>, where \<open>0.0000001\<close> comes out as \<open>1e-7\<close>.
\<close>

theorem precision_limit_misses_exponent_form:
  "transformCommand \<lparr>translate = (Fin 0, Fin 0), scale = (Fin 1, Fin 1)\<rparr> ''M 0.00000015 0''
     = Inr ''M 1.5e-7 0''
   \<and> matchDecimal ''1.5e-7 0'' = Some (''1.5'', ''e-7 0'')
   \<and> limitNumber 5 ''1.5'' = Inr ''1.5''
   \<and> limitPrecision 5 ''M 1.5e-7 0'' = Inr ''M 1.5e-7 0''
   \<and> normalizePathData ''M 0.00000015 0'' \<lparr>translate = (Fin 0, Fin 0), scale = (Fin 1, Fin 1)\<rparr> 5
        = Inr ''M 1.5e-7 0''
   \<and> limitNumber 5 ''0.00000015'' = Inr ''0''
   \<and> limitPrecision 7 ''M 0.0000001 0'' = Inr ''M 1e-7 0''"
  by (simp add: js_eval)

section \<open>Normalizing a normalized string\<close>


















end
